theory Spec2Isabelle
  imports Complex_Main
begin

section \<open>NumPy arrays\<close>

text \<open>
  Q1.ipynb works on two-dimensional NumPy arrays throughout: a weight matrix has shape
  (rows, columns) and a "vector" is a column of shape (n, 1).  An array is modelled by its
  column count and the list of its rows, so that an array with no rows still has a shape.
  float64 is idealised as \<open>real\<close> here: no rounding, no infinities and no NaN.  This
  model carries the equations that \<open>forward\<close>, \<open>backward\<close> and \<open>train_step\<close> compute;
  the range and the sum of what \<open>forward\<close> returns are settled on a second model, on
  floating-point values with infinities and NaN, further below.
  Python exceptions are values of type \<open>error\<close>; a fallible operation returns
  \<open>error + 'a\<close> with \<open>Inl\<close> for the exception.
\<close>

datatype error = ValueError | IndexError | ZeroDivisionError | KeyError | RuntimeError

datatype ndarray = NDArray (shape1: nat) (rows: "real list list")

definition shape0 :: "ndarray \<Rightarrow> nat" where
  "shape0 A = length (rows A)"

definition entry :: "ndarray \<Rightarrow> nat \<Rightarrow> nat \<Rightarrow> real" where
  "entry A i j = rows A ! i ! j"

definition wf :: "ndarray \<Rightarrow> bool" where
  "wf A = list_all (\<lambda>r. length r = shape1 A) (rows A)"

definition mk :: "nat \<Rightarrow> nat \<Rightarrow> (nat \<Rightarrow> nat \<Rightarrow> real) \<Rightarrow> ndarray" where
  "mk r c f = NDArray c (map (\<lambda>i. map (\<lambda>j. f i j) [0..<c]) [0..<r])"

definition ebind :: "error + 'a \<Rightarrow> ('a \<Rightarrow> error + 'b) \<Rightarrow> error + 'b" where
  "ebind m f = (case m of Inl e \<Rightarrow> Inl e | Inr x \<Rightarrow> f x)"

fun foldM :: "('a \<Rightarrow> 's \<Rightarrow> error + 's) \<Rightarrow> 'a list \<Rightarrow> 's \<Rightarrow> error + 's" where
  "foldM f [] s = Inr s"
| "foldM f (x # xs) s = ebind (f x s) (foldM f xs)"

text \<open>\<open>np.zeros((r, c))\<close> and \<open>np.zeros_like(A)\<close>.\<close>

definition np_zeros :: "nat \<Rightarrow> nat \<Rightarrow> ndarray" where
  "np_zeros r c = mk r c (\<lambda>i j. 0)"

definition np_zeros_like :: "ndarray \<Rightarrow> ndarray" where
  "np_zeros_like A = np_zeros (shape0 A) (shape1 A)"

text \<open>\<open>A.T\<close>.\<close>

definition transpose_nd :: "ndarray \<Rightarrow> ndarray" where
  "transpose_nd A = mk (shape1 A) (shape0 A) (\<lambda>i j. entry A j i)"

text \<open>
  \<open>np.dot(A, B)\<close> on two-dimensional arrays is the matrix product; it raises ValueError
  ("shapes not aligned") unless the column count of A is the row count of B.
\<close>

definition np_dot :: "ndarray \<Rightarrow> ndarray \<Rightarrow> error + ndarray" where
  "np_dot A B =
     (if shape1 A \<noteq> shape0 B then Inl ValueError
      else Inr (mk (shape0 A) (shape1 B)
                 (\<lambda>i j. sum_list (map (\<lambda>k. entry A i k * entry B k j) [0..<shape1 A]))))"

text \<open>
  Broadcasting of one axis: equal extents agree, an extent of 1 stretches to the other,
  anything else is a ValueError.  \<open>bidx n i\<close> is the index read from an axis of extent
  \<open>n\<close> for the result index \<open>i\<close>.
\<close>

definition bdim :: "nat \<Rightarrow> nat \<Rightarrow> error + nat" where
  "bdim a b = (if a = b then Inr a else if a = 1 then Inr b else if b = 1 then Inr a
               else Inl ValueError)"

definition bidx :: "nat \<Rightarrow> nat \<Rightarrow> nat" where
  "bidx n i = (if n = 1 then 0 else i)"

definition np_binop :: "(real \<Rightarrow> real \<Rightarrow> real) \<Rightarrow> ndarray \<Rightarrow> ndarray \<Rightarrow> error + ndarray" where
  "np_binop f A B =
     ebind (bdim (shape0 A) (shape0 B)) (\<lambda>r.
     ebind (bdim (shape1 A) (shape1 B)) (\<lambda>c.
       Inr (mk r c (\<lambda>i j. f (entry A (bidx (shape0 A) i) (bidx (shape1 A) j))
                              (entry B (bidx (shape0 B) i) (bidx (shape1 B) j))))))"

definition np_add :: "ndarray \<Rightarrow> ndarray \<Rightarrow> error + ndarray" where
  "np_add = np_binop (+)"

definition np_sub :: "ndarray \<Rightarrow> ndarray \<Rightarrow> error + ndarray" where
  "np_sub = np_binop (-)"

definition np_mul :: "ndarray \<Rightarrow> ndarray \<Rightarrow> error + ndarray" where
  "np_mul = np_binop (*)"

text \<open>
  The in-place \<open>A += B\<close>: B is broadcast against A, and the result must have the shape
  of A (otherwise "non-broadcastable output operand", a ValueError).
\<close>

definition np_iadd :: "ndarray \<Rightarrow> ndarray \<Rightarrow> error + ndarray" where
  "np_iadd A B =
     ebind (np_add A B) (\<lambda>R.
       if shape0 R = shape0 A \<and> shape1 R = shape1 A then Inr R else Inl ValueError)"

text \<open>Elementwise functions and operations with a scalar.\<close>

definition np_map :: "(real \<Rightarrow> real) \<Rightarrow> ndarray \<Rightarrow> ndarray" where
  "np_map f A = mk (shape0 A) (shape1 A) (\<lambda>i j. f (entry A i j))"

definition np_tanh :: "ndarray \<Rightarrow> ndarray" where
  "np_tanh = np_map tanh"

definition np_exp :: "ndarray \<Rightarrow> ndarray" where
  "np_exp = np_map exp"

text \<open>All the elements of an array, and \<open>np.max\<close>, \<open>np.sum\<close> over them.\<close>

definition flat :: "ndarray \<Rightarrow> real list" where
  "flat A = concat (map (\<lambda>i. map (\<lambda>j. entry A i j) [0..<shape1 A]) [0..<shape0 A])"

fun amax :: "real list \<Rightarrow> real" where
  "amax [] = 0"
| "amax [x] = x"
| "amax (x # y # ys) = max x (amax (y # ys))"

definition np_max :: "ndarray \<Rightarrow> error + real" where
  "np_max A = (if flat A = [] then Inl ValueError else Inr (amax (flat A)))"

definition np_sum :: "ndarray \<Rightarrow> real" where
  "np_sum A = sum_list (flat A)"

section \<open>Q1.ipynb: the forward pass\<close>

text \<open>
  \<^verbatim>\<open>
  def softmax(x):
      exp_x = np.exp(x - np.max(x))
      return exp_x / np.sum(exp_x)
  \<close>
\<close>

definition softmax :: "ndarray \<Rightarrow> error + ndarray" where
  "softmax x =
     ebind (np_max x) (\<lambda>m.
       let exp_x = np_exp (np_map (\<lambda>v. v - m) x) in
       Inr (np_map (\<lambda>v. v / np_sum exp_x) exp_x))"

text \<open>
  \<open>hidden_states[i] = v\<close> on the array of shape (T + 1, hidden_size, 1): the index must be
  in range (IndexError) and \<open>v\<close> must broadcast to (hidden_size, 1) (ValueError).
\<close>

definition set_hidden :: "nat \<Rightarrow> ndarray list \<Rightarrow> nat \<Rightarrow> ndarray \<Rightarrow> error + ndarray list" where
  "set_hidden hidden_size hs i v =
     (if \<not> i < length hs then Inl IndexError
      else if shape1 v = 1 \<and> (shape0 v = hidden_size \<or> shape0 v = 1)
        then Inr (hs[i := mk hidden_size 1 (\<lambda>r c. entry v (bidx (shape0 v) r) 0)])
      else Inl ValueError)"

text \<open>Indexing a Python list or the leading axis of an array by a non-negative index.\<close>

definition item :: "'a list \<Rightarrow> nat \<Rightarrow> error + 'a" where
  "item xs i = (if i < length xs then Inr (xs ! i) else Inl IndexError)"

text \<open>
  One iteration of the loop of \<open>forward\<close>; the state is (outputs, hidden_states).
  \<open>hidden_size\<close> is the notebook's global variable, which \<open>forward\<close> reads.
\<close>

definition forward_step ::
  "nat \<Rightarrow> ndarray list \<Rightarrow> ndarray \<Rightarrow> ndarray \<Rightarrow> ndarray \<Rightarrow> ndarray \<Rightarrow> ndarray \<Rightarrow>
   nat \<Rightarrow> ndarray list \<times> ndarray list \<Rightarrow> error + ndarray list \<times> ndarray list" where
  "forward_step hidden_size inputs U W V b c t st =
     (case st of (outputs, hidden_states) \<Rightarrow>
       ebind (item inputs t) (\<lambda>x.
       ebind (np_dot U x) (\<lambda>ux.
       ebind (item hidden_states t) (\<lambda>h.
       ebind (np_dot W h) (\<lambda>wh.
       ebind (np_add ux wh) (\<lambda>s1.
       ebind (np_add s1 b) (\<lambda>s2.
       ebind (set_hidden hidden_size hidden_states (t + 1) (np_tanh s2)) (\<lambda>hidden_states'.
       ebind (item hidden_states' (t + 1)) (\<lambda>h'.
       ebind (np_dot V h') (\<lambda>vh.
       ebind (np_add vh c) (\<lambda>logits.
       ebind (softmax logits) (\<lambda>output.
         Inr (outputs @ [output], hidden_states')))))))))))))"

definition forward ::
  "nat \<Rightarrow> ndarray list \<Rightarrow> ndarray \<Rightarrow> ndarray \<Rightarrow> ndarray \<Rightarrow> ndarray \<Rightarrow> ndarray \<Rightarrow>
   error + ndarray list \<times> ndarray list" where
  "forward hidden_size inputs U W V b c =
     (let T = length inputs;
          hidden_states = replicate (T + 1) (np_zeros hidden_size 1)
      in ebind (set_hidden hidden_size hidden_states 0 (np_zeros hidden_size 1)) (\<lambda>hidden_states.
           foldM (forward_step hidden_size inputs U W V b c) [0..<T] ([], hidden_states)))"

section \<open>Q1.ipynb: the backward pass\<close>

text \<open>
  \<open>target[k] = v\<close> for a Python integer \<open>k\<close>: the row \<open>k\<close> of the array is filled
  with \<open>v\<close>; a negative index counts from the end, an index out of range raises IndexError.
\<close>

definition set_row :: "ndarray \<Rightarrow> int \<Rightarrow> real \<Rightarrow> error + ndarray" where
  "set_row A k v =
     (let n = int (shape0 A); j = (if k < 0 then n + k else k)
      in if 0 \<le> j \<and> j < n
         then Inr (mk (shape0 A) (shape1 A) (\<lambda>r c. if r = nat j then v else entry A r c))
         else Inl IndexError)"

text \<open>
  One iteration of the loop of \<open>backward\<close>; the state is
  (dU, dW, dV, db, dc, dh_next).
\<close>

type_synonym grads = "ndarray \<times> ndarray \<times> ndarray \<times> ndarray \<times> ndarray"

definition backward_step ::
  "ndarray list \<Rightarrow> ndarray list \<Rightarrow> ndarray list \<Rightarrow> int list \<Rightarrow>
   ndarray \<Rightarrow> ndarray \<Rightarrow> ndarray \<Rightarrow> ndarray \<Rightarrow> ndarray \<Rightarrow>
   nat \<Rightarrow> grads \<times> ndarray \<Rightarrow> error + grads \<times> ndarray" where
  "backward_step inputs outputs hidden_states targets U W V b c t st =
     (case st of ((dU, dW, dV, db, dc), dh_next) \<Rightarrow>
       ebind (item outputs t) (\<lambda>out_t.
       ebind (item targets t) (\<lambda>k.
       ebind (set_row (np_zeros_like out_t) k 1) (\<lambda>target.
       ebind (np_sub out_t target) (\<lambda>dy.
       ebind (item hidden_states (t + 1)) (\<lambda>h1.
       ebind (np_dot dy (transpose_nd h1)) (\<lambda>gV.
       ebind (np_iadd dV gV) (\<lambda>dV'.
       ebind (np_iadd dc dy) (\<lambda>dc'.
       ebind (np_dot (transpose_nd V) dy) (\<lambda>vdy.
       ebind (np_add vdy dh_next) (\<lambda>dh.
       ebind (np_mul (np_map (\<lambda>v. 1 - v ^ 2) h1) dh) (\<lambda>dtanh.
       ebind (np_iadd db dtanh) (\<lambda>db'.
       ebind (item inputs t) (\<lambda>x.
       ebind (np_dot dtanh (transpose_nd x)) (\<lambda>gU.
       ebind (np_iadd dU gU) (\<lambda>dU'.
       ebind (item hidden_states t) (\<lambda>h0.
       ebind (np_dot dtanh (transpose_nd h0)) (\<lambda>gW.
       ebind (np_iadd dW gW) (\<lambda>dW'.
       ebind (np_dot (transpose_nd W) dtanh) (\<lambda>dh_next'.
         Inr ((dU', dW', dV', db', dc'), dh_next')))))))))))))))))))))"

definition backward ::
  "ndarray list \<Rightarrow> ndarray list \<Rightarrow> ndarray list \<Rightarrow> int list \<Rightarrow>
   ndarray \<Rightarrow> ndarray \<Rightarrow> ndarray \<Rightarrow> ndarray \<Rightarrow> ndarray \<Rightarrow> error + grads" where
  "backward inputs outputs hidden_states targets U W V b c =
     (let T = length inputs;
          dU = np_zeros_like U; dW = np_zeros_like W; dV = np_zeros_like V;
          db = np_zeros_like b; dc = np_zeros_like c
      in ebind (item hidden_states 0) (\<lambda>h0.
         let dh_next = np_zeros_like h0 in
         ebind (foldM (backward_step inputs outputs hidden_states targets U W V b c)
                  (rev [0..<T]) ((dU, dW, dV, db, dc), dh_next)) (\<lambda>st.
           Inr (fst st))))"

section \<open>Q1.ipynb: the training step\<close>

text \<open>
  \<open>A[k, 0]\<close> for a Python integer \<open>k\<close> (negative indices count from the end).
\<close>

definition item2 :: "ndarray \<Rightarrow> int \<Rightarrow> error + real" where
  "item2 A k =
     (let n = int (shape0 A); j = (if k < 0 then n + k else k)
      in if 0 \<le> j \<and> j < n \<and> 0 < shape1 A then Inr (entry A (nat j) 0) else Inl IndexError)"

text \<open>
  The loop that accumulates the loss.  \<open>np.log\<close> is \<open>ln\<close>; the outputs of \<open>forward\<close> are
  positive, so the argument of the logarithm is positive wherever the loop runs.
\<close>

definition loss_step :: "ndarray list \<Rightarrow> int list \<Rightarrow> nat \<Rightarrow> real \<Rightarrow> error + real" where
  "loss_step outputs targets t loss =
     ebind (item outputs t) (\<lambda>out_t.
     ebind (item targets t) (\<lambda>k.
     ebind (item2 out_t k) (\<lambda>correct_prob.
       Inr (loss - ln (correct_prob + 1 / 10 ^ 8)))))"

text \<open>\<open>P - learning_rate * dP\<close>.\<close>

definition descend :: "real \<Rightarrow> ndarray \<Rightarrow> ndarray \<Rightarrow> error + ndarray" where
  "descend learning_rate P dP = np_sub P (np_map (\<lambda>v. learning_rate * v) dP)"

definition train_step ::
  "nat \<Rightarrow> ndarray list \<Rightarrow> int list \<Rightarrow> ndarray \<Rightarrow> ndarray \<Rightarrow> ndarray \<Rightarrow> ndarray \<Rightarrow> ndarray \<Rightarrow>
   real \<Rightarrow> error + grads \<times> real" where
  "train_step hidden_size inputs targets U W V b c learning_rate =
     ebind (forward hidden_size inputs U W V b c) (\<lambda>(outputs, hidden_states).
     ebind (backward inputs outputs hidden_states targets U W V b c) (\<lambda>(dU, dW, dV, db, dc).
     ebind (descend learning_rate U dU) (\<lambda>U_new.
     ebind (descend learning_rate W dW) (\<lambda>W_new.
     ebind (descend learning_rate V dV) (\<lambda>V_new.
     ebind (descend learning_rate b db) (\<lambda>b_new.
     ebind (descend learning_rate c dc) (\<lambda>c_new.
     ebind (foldM (loss_step outputs targets) [0..<length targets] 0) (\<lambda>loss.
       if length targets = 0 then Inl ZeroDivisionError
       else Inr ((U_new, W_new, V_new, b_new, c_new), loss / real (length targets))))))))))"

section \<open>Q1.ipynb with arrays in a store\<close>

text \<open>
  NumPy arrays are objects: the parameters reach \<open>forward\<close> and \<open>backward\<close> by reference,
  and \<open>hidden_states[t+1] = ...\<close>, \<open>target[k] = 1\<close> and \<open>dV += ...\<close> write into an
  array in place.  To state what the two functions leave unchanged, they are modelled a
  second time over a store: \<open>arr\<close> holds the two-dimensional arrays, \<open>arr3\<close> the arrays of
  shape (T + 1, hidden_size, 1), and \<open>lim\<close> is the next free address.  Every array that is
  written in place or handed back to the caller is a cell of the store; the result of an
  expression that is only read (\<open>np.dot(U, x)\<close>, \<open>outputs[t] - target\<close>, ...) stays a value.
  An exception leaves the store as it is at that point.
\<close>

record store =
  arr :: "nat \<Rightarrow> ndarray"
  arr3 :: "nat \<Rightarrow> ndarray list"
  lim :: nat

type_synonym 'a st = "store \<Rightarrow> (error + 'a) \<times> store"

definition sreturn :: "'a \<Rightarrow> 'a st" where
  "sreturn x = (\<lambda>s. (Inr x, s))"

definition lift :: "error + 'a \<Rightarrow> 'a st" where
  "lift r = (\<lambda>s. (r, s))"

definition sbind :: "'a st \<Rightarrow> ('a \<Rightarrow> 'b st) \<Rightarrow> 'b st" where
  "sbind m f = (\<lambda>s. case m s of (Inl e, s') \<Rightarrow> (Inl e, s') | (Inr x, s') \<Rightarrow> f x s')"

fun sfoldM :: "('a \<Rightarrow> 'b \<Rightarrow> 'b st) \<Rightarrow> 'a list \<Rightarrow> 'b \<Rightarrow> 'b st" where
  "sfoldM f [] a = sreturn a"
| "sfoldM f (x # xs) a = sbind (f x a) (sfoldM f xs)"

definition new_arr :: "ndarray \<Rightarrow> nat st" where
  "new_arr A = (\<lambda>s. (Inr (lim s), s\<lparr>arr := (arr s)(lim s := A), lim := lim s + 1\<rparr>))"

definition new_arr3 :: "ndarray list \<Rightarrow> nat st" where
  "new_arr3 As = (\<lambda>s. (Inr (lim s), s\<lparr>arr3 := (arr3 s)(lim s := As), lim := lim s + 1\<rparr>))"

definition read_arr :: "nat \<Rightarrow> ndarray st" where
  "read_arr p = (\<lambda>s. (Inr (arr s p), s))"

definition read_arr3 :: "nat \<Rightarrow> ndarray list st" where
  "read_arr3 p = (\<lambda>s. (Inr (arr3 s p), s))"

definition write_arr :: "nat \<Rightarrow> ndarray \<Rightarrow> unit st" where
  "write_arr p A = (\<lambda>s. (Inr (), s\<lparr>arr := (arr s)(p := A)\<rparr>))"

definition write_arr3 :: "nat \<Rightarrow> ndarray list \<Rightarrow> unit st" where
  "write_arr3 p As = (\<lambda>s. (Inr (), s\<lparr>arr3 := (arr3 s)(p := As)\<rparr>))"

text \<open>\<open>hidden_states[i] = v\<close>, \<open>A += B\<close> and \<open>target[k] = v\<close> on cells of the store.\<close>

definition set_hidden_st :: "nat \<Rightarrow> nat \<Rightarrow> nat \<Rightarrow> ndarray \<Rightarrow> unit st" where
  "set_hidden_st hidden_size ph i v =
     sbind (read_arr3 ph) (\<lambda>hs.
     sbind (lift (set_hidden hidden_size hs i v)) (\<lambda>hs'.
       write_arr3 ph hs'))"

definition iadd_st :: "nat \<Rightarrow> ndarray \<Rightarrow> unit st" where
  "iadd_st p B =
     sbind (read_arr p) (\<lambda>A.
     sbind (lift (np_iadd A B)) (\<lambda>R.
       write_arr p R))"

definition set_row_st :: "nat \<Rightarrow> int \<Rightarrow> real \<Rightarrow> unit st" where
  "set_row_st p k v =
     sbind (read_arr p) (\<lambda>A.
     sbind (lift (set_row A k v)) (\<lambda>R.
       write_arr p R))"

text \<open>
  \<open>forward\<close>: \<open>inputs\<close> is the list of the addresses of the input vectors, \<open>pU\<close> ... \<open>pc\<close>
  are the addresses of the parameters; the result is the list of the addresses of the
  outputs and the address of \<open>hidden_states\<close>.
\<close>

definition forward_step_st ::
  "nat \<Rightarrow> nat list \<Rightarrow> nat \<Rightarrow> nat \<Rightarrow> nat \<Rightarrow> nat \<Rightarrow> nat \<Rightarrow> nat \<Rightarrow> nat \<Rightarrow> nat list \<Rightarrow> nat list st" where
  "forward_step_st hidden_size inputs pU pW pV pb pc ph t outputs =
     sbind (read_arr pU) (\<lambda>U.
     sbind (lift (item inputs t)) (\<lambda>px.
     sbind (read_arr px) (\<lambda>x.
     sbind (lift (np_dot U x)) (\<lambda>ux.
     sbind (read_arr pW) (\<lambda>W.
     sbind (read_arr3 ph) (\<lambda>hidden_states.
     sbind (lift (item hidden_states t)) (\<lambda>h.
     sbind (lift (np_dot W h)) (\<lambda>wh.
     sbind (lift (np_add ux wh)) (\<lambda>s1.
     sbind (read_arr pb) (\<lambda>b.
     sbind (lift (np_add s1 b)) (\<lambda>s2.
     sbind (set_hidden_st hidden_size ph (t + 1) (np_tanh s2)) (\<lambda>_.
     sbind (read_arr pV) (\<lambda>V.
     sbind (read_arr3 ph) (\<lambda>hidden_states'.
     sbind (lift (item hidden_states' (t + 1))) (\<lambda>h'.
     sbind (lift (np_dot V h')) (\<lambda>vh.
     sbind (read_arr pc) (\<lambda>c.
     sbind (lift (np_add vh c)) (\<lambda>logits.
     sbind (lift (softmax logits)) (\<lambda>output.
     sbind (new_arr output) (\<lambda>po.
       sreturn (outputs @ [po])))))))))))))))))))))"

definition forward_st ::
  "nat \<Rightarrow> nat list \<Rightarrow> nat \<Rightarrow> nat \<Rightarrow> nat \<Rightarrow> nat \<Rightarrow> nat \<Rightarrow> (nat list \<times> nat) st" where
  "forward_st hidden_size inputs pU pW pV pb pc =
     (let T = length inputs in
      sbind (new_arr3 (replicate (T + 1) (np_zeros hidden_size 1))) (\<lambda>ph.
      sbind (set_hidden_st hidden_size ph 0 (np_zeros hidden_size 1)) (\<lambda>_.
      sbind (sfoldM (forward_step_st hidden_size inputs pU pW pV pb pc ph) [0..<T] []) (\<lambda>outputs.
        sreturn (outputs, ph)))))"

text \<open>
  \<open>backward\<close>: \<open>outputs\<close> is a list of addresses, \<open>ph\<close> the address of \<open>hidden_states\<close>;
  the loop state is the value of \<open>dh_next\<close>, the accumulators being cells of the store.
  The result is the addresses of dU, dW, dV, db and dc.
\<close>

definition backward_step_st ::
  "nat list \<Rightarrow> nat list \<Rightarrow> nat \<Rightarrow> int list \<Rightarrow> nat \<Rightarrow> nat \<Rightarrow> nat \<Rightarrow>
   nat \<Rightarrow> nat \<Rightarrow> nat \<Rightarrow> nat \<Rightarrow> nat \<Rightarrow> nat \<Rightarrow> ndarray \<Rightarrow> ndarray st" where
  "backward_step_st inputs outputs ph targets pU pW pV dU dW dV db dc t dh_next =
     sbind (lift (item outputs t)) (\<lambda>po.
     sbind (read_arr po) (\<lambda>out_t.
     sbind (new_arr (np_zeros_like out_t)) (\<lambda>target.
     sbind (lift (item targets t)) (\<lambda>k.
     sbind (set_row_st target k 1) (\<lambda>_.
     sbind (read_arr target) (\<lambda>tg.
     sbind (lift (np_sub out_t tg)) (\<lambda>dy.
     sbind (read_arr3 ph) (\<lambda>hidden_states.
     sbind (lift (item hidden_states (t + 1))) (\<lambda>h1.
     sbind (lift (np_dot dy (transpose_nd h1))) (\<lambda>gV.
     sbind (iadd_st dV gV) (\<lambda>_.
     sbind (iadd_st dc dy) (\<lambda>_.
     sbind (read_arr pV) (\<lambda>V.
     sbind (lift (np_dot (transpose_nd V) dy)) (\<lambda>vdy.
     sbind (lift (np_add vdy dh_next)) (\<lambda>dh.
     sbind (lift (np_mul (np_map (\<lambda>v. 1 - v ^ 2) h1) dh)) (\<lambda>dtanh.
     sbind (iadd_st db dtanh) (\<lambda>_.
     sbind (lift (item inputs t)) (\<lambda>px.
     sbind (read_arr px) (\<lambda>x.
     sbind (lift (np_dot dtanh (transpose_nd x))) (\<lambda>gU.
     sbind (iadd_st dU gU) (\<lambda>_.
     sbind (lift (item hidden_states t)) (\<lambda>h0.
     sbind (lift (np_dot dtanh (transpose_nd h0))) (\<lambda>gW.
     sbind (iadd_st dW gW) (\<lambda>_.
     sbind (read_arr pW) (\<lambda>W.
       lift (np_dot (transpose_nd W) dtanh))))))))))))))))))))))))))"

definition backward_st ::
  "nat list \<Rightarrow> nat list \<Rightarrow> nat \<Rightarrow> int list \<Rightarrow> nat \<Rightarrow> nat \<Rightarrow> nat \<Rightarrow> nat \<Rightarrow> nat \<Rightarrow>
   (nat \<times> nat \<times> nat \<times> nat \<times> nat) st" where
  "backward_st inputs outputs ph targets pU pW pV pb pc =
     (let T = length inputs in
      sbind (read_arr pU) (\<lambda>U. sbind (new_arr (np_zeros_like U)) (\<lambda>dU.
      sbind (read_arr pW) (\<lambda>W. sbind (new_arr (np_zeros_like W)) (\<lambda>dW.
      sbind (read_arr pV) (\<lambda>V. sbind (new_arr (np_zeros_like V)) (\<lambda>dV.
      sbind (read_arr pb) (\<lambda>b. sbind (new_arr (np_zeros_like b)) (\<lambda>db.
      sbind (read_arr pc) (\<lambda>c. sbind (new_arr (np_zeros_like c)) (\<lambda>dc.
      sbind (read_arr3 ph) (\<lambda>hidden_states.
      sbind (lift (item hidden_states 0)) (\<lambda>h0.
      sbind (sfoldM (backward_step_st inputs outputs ph targets pU pW pV dU dW dV db dc)
               (rev [0..<T]) (np_zeros_like h0)) (\<lambda>_.
        sreturn (dU, dW, dV, db, dc)))))))))))))))"

section \<open>The specification: well-shaped data\<close>

text \<open>
  The parameter set of the specification: U is hidden_dim x input_dim, W is
  hidden_dim x hidden_dim, V is output_dim x hidden_dim, b and c are columns, and there is
  at least one output class.
\<close>

definition params_ok ::
  "nat \<Rightarrow> nat \<Rightarrow> nat \<Rightarrow> ndarray \<Rightarrow> ndarray \<Rightarrow> ndarray \<Rightarrow> ndarray \<Rightarrow> ndarray \<Rightarrow> bool" where
  "params_ok hidden_dim input_dim output_dim U W V b c =
     (wf U \<and> shape0 U = hidden_dim \<and> shape1 U = input_dim \<and>
      wf W \<and> shape0 W = hidden_dim \<and> shape1 W = hidden_dim \<and>
      wf V \<and> shape0 V = output_dim \<and> shape1 V = hidden_dim \<and>
      wf b \<and> shape0 b = hidden_dim \<and> shape1 b = 1 \<and>
      wf c \<and> shape0 c = output_dim \<and> shape1 c = 1 \<and> 0 < output_dim)"

text \<open>
  A vector of length \<open>n\<close> is an array of shape (n, 1).
\<close>

definition column :: "nat \<Rightarrow> ndarray \<Rightarrow> bool" where
  "column n x = (wf x \<and> shape0 x = n \<and> shape1 x = 1)"

text \<open>
  A sequence of input vectors of the input dimension, and a sequence of target classes
  below the output dimension.
\<close>

definition inputs_ok :: "nat \<Rightarrow> ndarray list \<Rightarrow> bool" where
  "inputs_ok input_dim inputs = list_all (column input_dim) inputs"

definition targets_ok :: "nat \<Rightarrow> int list \<Rightarrow> bool" where
  "targets_ok output_dim targets = list_all (\<lambda>k. 0 \<le> k \<and> k < int output_dim) targets"

section \<open>The specification: the equations of the forward pass and of the update\<close>

text \<open>
  The numerically stable softmax of a column: subtract the maximum entry, exponentiate,
  divide by the sum of the exponentials.
\<close>

definition colmax :: "ndarray \<Rightarrow> real" where
  "colmax z = Max ((\<lambda>i. entry z i 0) ` {..<shape0 z})"

definition softmax_spec :: "ndarray \<Rightarrow> ndarray" where
  "softmax_spec z =
     mk (shape0 z) 1 (\<lambda>i j. exp (entry z i 0 - colmax z) / (\<Sum>k<shape0 z. exp (entry z k 0 - colmax z)))"

text \<open>
  \<open>tanh (U x + W h + b)\<close> and \<open>V h + c\<close>, entry by entry.
\<close>

definition cell_spec :: "ndarray \<Rightarrow> ndarray \<Rightarrow> ndarray \<Rightarrow> ndarray \<Rightarrow> ndarray \<Rightarrow> ndarray" where
  "cell_spec U W b x h =
     mk (shape0 U) 1 (\<lambda>i j. tanh ((\<Sum>k<shape1 U. entry U i k * entry x k 0)
                                  + (\<Sum>k<shape1 W. entry W i k * entry h k 0) + entry b i 0))"

definition logits_spec :: "ndarray \<Rightarrow> ndarray \<Rightarrow> ndarray \<Rightarrow> ndarray" where
  "logits_spec V c h = mk (shape0 V) 1 (\<lambda>i j. (\<Sum>k<shape1 V. entry V i k * entry h k 0) + entry c i 0)"

text \<open>Plain gradient descent: \<open>tensor - step_size * gradient\<close>, entry by entry.\<close>

definition gd_spec :: "real \<Rightarrow> ndarray \<Rightarrow> ndarray \<Rightarrow> ndarray" where
  "gd_spec step_size P dP =
     mk (shape0 P) (shape1 P) (\<lambda>i j. entry P i j - step_size * entry dP i j)"

section \<open>The specification: backpropagation through time\<close>

text \<open>Total operations on arrays, used to write down the equations of the specification.\<close>

definition vadd :: "ndarray \<Rightarrow> ndarray \<Rightarrow> ndarray" where
  "vadd A B = mk (shape0 A) (shape1 A) (\<lambda>i j. entry A i j + entry B i j)"

definition vsub :: "ndarray \<Rightarrow> ndarray \<Rightarrow> ndarray" where
  "vsub A B = mk (shape0 A) (shape1 A) (\<lambda>i j. entry A i j - entry B i j)"

definition hadamard :: "ndarray \<Rightarrow> ndarray \<Rightarrow> ndarray" where
  "hadamard A B = mk (shape0 A) (shape1 A) (\<lambda>i j. entry A i j * entry B i j)"

definition outer :: "ndarray \<Rightarrow> ndarray \<Rightarrow> ndarray" where
  "outer a b = mk (shape0 a) (shape0 b) (\<lambda>i j. entry a i 0 * entry b j 0)"

definition matTvec :: "ndarray \<Rightarrow> ndarray \<Rightarrow> ndarray" where
  "matTvec M v = mk (shape1 M) 1 (\<lambda>i j. \<Sum>k<shape0 M. entry M k i * entry v k 0)"

definition one_hot :: "nat \<Rightarrow> nat \<Rightarrow> ndarray" where
  "one_hot n k = mk n 1 (\<lambda>i j. if i = k then 1 else 0)"

text \<open>\<open>dy = outputs[t] - one_hot(targets[t])\<close>.\<close>

definition bptt_dy :: "ndarray list \<Rightarrow> int list \<Rightarrow> nat \<Rightarrow> ndarray" where
  "bptt_dy outputs targets t =
     vsub (outputs ! t) (one_hot (shape0 (outputs ! t)) (nat (targets ! t)))"

text \<open>
  \<open>dh = V\<^sup>T dy + dh_next\<close> and \<open>dtanh = (1 - hidden[t+1]\<^sup>2) * dh\<close>, where \<open>dh_next\<close> is
  zero at the last step and \<open>W\<^sup>T dtanh\<close> of the step after \<open>t\<close> otherwise.
\<close>

function bptt_dtanh ::
  "ndarray \<Rightarrow> ndarray \<Rightarrow> ndarray list \<Rightarrow> ndarray list \<Rightarrow> int list \<Rightarrow> nat \<Rightarrow> nat \<Rightarrow> ndarray" where
  "bptt_dtanh W V hidden_states outputs targets T t =
     hadamard (np_map (\<lambda>v. 1 - v ^ 2) (hidden_states ! (t + 1)))
       (vadd (matTvec V (bptt_dy outputs targets t))
          (if t + 1 < T then matTvec W (bptt_dtanh W V hidden_states outputs targets T (t + 1))
           else np_zeros_like (hidden_states ! 0)))"
  by pat_completeness auto
termination
  by (relation "measure (\<lambda>(W, V, hs, outs, tg, T, t). T - t)") auto

text \<open>The sum of the per-step contributions \<open>contrib t\<close> for \<open>k \<le> t < T\<close>, entry by entry.\<close>

definition grad_sum :: "nat \<Rightarrow> nat \<Rightarrow> nat \<Rightarrow> nat \<Rightarrow> (nat \<Rightarrow> ndarray) \<Rightarrow> ndarray" where
  "grad_sum r c k T contrib = mk r c (\<lambda>i j. \<Sum>t = k..<T. entry (contrib t) i j)"

section \<open>Invariants and relations of the proofs\<close>

text \<open>
  The state of the loop of \<open>forward\<close> after \<open>k\<close> iterations.
\<close>

definition forward_inv ::
  "nat \<Rightarrow> ndarray list \<Rightarrow> ndarray \<Rightarrow> ndarray \<Rightarrow> ndarray \<Rightarrow> ndarray \<Rightarrow> ndarray \<Rightarrow> nat \<Rightarrow>
   ndarray list \<times> ndarray list \<Rightarrow> bool" where
  "forward_inv H inputs U W V b c k st =
     (case st of (outs, hs) \<Rightarrow>
        length outs = k \<and> length hs = length inputs + 1 \<and>
        (\<forall>i \<le> length inputs. column H (hs ! i)) \<and>
        hs ! 0 = np_zeros H 1 \<and>
        (\<forall>t < k. hs ! (t + 1) = cell_spec U W b (inputs ! t) (hs ! t) \<and>
                 outs ! t = softmax_spec (logits_spec V c (hs ! (t + 1)))))"

text \<open>
  A result that is a value or a ValueError.
\<close>

definition verr :: "(error + 'a) \<Rightarrow> bool" where
  "verr r = (case r of Inl e \<Rightarrow> e = ValueError | Inr x \<Rightarrow> True)"

text \<open>
  The accumulators have the shapes of their parameters.
\<close>

definition grads_ok :: "ndarray \<Rightarrow> ndarray \<Rightarrow> ndarray \<Rightarrow> ndarray \<Rightarrow> ndarray \<Rightarrow> grads \<Rightarrow> bool" where
  "grads_ok U W V b c g =
     (case g of (dU, dW, dV, db, dc) \<Rightarrow>
        shape0 dU = shape0 U \<and> shape1 dU = shape1 U \<and>
        shape0 dW = shape0 W \<and> shape1 dW = shape1 W \<and>
        shape0 dV = shape0 V \<and> shape1 dV = shape1 V \<and>
        shape0 db = shape0 b \<and> shape1 db = shape1 b \<and>
        shape0 dc = shape0 c \<and> shape1 dc = shape1 c)"

text \<open>
  \<open>dtanh\<close> of one step from the carrier \<open>dh_next\<close> that enters it, the sums of the
  per-step terms over the steps \<open>k \<le> t < T\<close>, and the carrier that leaves step \<open>k\<close>.
\<close>

definition dtanh_step :: "ndarray \<Rightarrow> ndarray \<Rightarrow> ndarray \<Rightarrow> ndarray \<Rightarrow> ndarray" where
  "dtanh_step V h1 dy dh_next =
     hadamard (np_map (\<lambda>v. 1 - v ^ 2) h1) (vadd (matTvec V dy) dh_next)"

definition bptt_grads ::
  "ndarray list \<Rightarrow> ndarray list \<Rightarrow> ndarray list \<Rightarrow> int list \<Rightarrow>
   ndarray \<Rightarrow> ndarray \<Rightarrow> ndarray \<Rightarrow> ndarray \<Rightarrow> ndarray \<Rightarrow> nat \<Rightarrow> grads" where
  "bptt_grads inputs outputs hidden_states targets U W V b c k =
     (let T = length inputs;
          dy = bptt_dy outputs targets;
          dtanh = bptt_dtanh W V hidden_states outputs targets T
      in (grad_sum (shape0 U) (shape1 U) k T (\<lambda>t. outer (dtanh t) (inputs ! t)),
          grad_sum (shape0 W) (shape1 W) k T (\<lambda>t. outer (dtanh t) (hidden_states ! t)),
          grad_sum (shape0 V) (shape1 V) k T (\<lambda>t. outer (dy t) (hidden_states ! (t + 1))),
          grad_sum (shape0 b) (shape1 b) k T dtanh,
          grad_sum (shape0 c) (shape1 c) k T dy))"

definition bptt_carry ::
  "ndarray \<Rightarrow> ndarray \<Rightarrow> ndarray list \<Rightarrow> ndarray list \<Rightarrow> int list \<Rightarrow> nat \<Rightarrow> nat \<Rightarrow> ndarray" where
  "bptt_carry W V hidden_states outputs targets T k =
     (if k < T then matTvec W (bptt_dtanh W V hidden_states outputs targets T k)
      else np_zeros_like (hidden_states ! 0))"

text \<open>A store \<open>s'\<close> keeps every cell that is allocated in \<open>s\<close>.\<close>

definition frame :: "store \<Rightarrow> store \<Rightarrow> bool" where
  "frame s s' = (lim s \<le> lim s' \<and> (\<forall>p < lim s. arr s' p = arr s p \<and> arr3 s' p = arr3 s p))"

text \<open>
  A computation keeps the cells of \<open>s0\<close>, and its result satisfies \<open>Q\<close>.
\<close>

definition pres :: "store \<Rightarrow> 'a st \<Rightarrow> ('a \<Rightarrow> bool) \<Rightarrow> bool" where
  "pres s0 m Q = (\<forall>s. frame s0 s \<longrightarrow>
      frame s0 (snd (m s)) \<and> (\<forall>x. fst (m s) = Inr x \<longrightarrow> Q x))"

text \<open>
  The contents of five cells of the store.
\<close>

definition params_at :: "store \<Rightarrow> nat \<Rightarrow> nat \<Rightarrow> nat \<Rightarrow> nat \<Rightarrow> nat \<Rightarrow> grads" where
  "params_at s pU pW pV pb pc = (arr s pU, arr s pW, arr s pV, arr s pb, arr s pc)"

text \<open>
  The states of the loops of the store model and of the value model correspond.
\<close>

definition fwd_rel :: "store \<Rightarrow> nat \<Rightarrow> nat list \<times> store \<Rightarrow> ndarray list \<times> ndarray list \<Rightarrow> bool" where
  "fwd_rel s0 ph c a =
     (case c of (pouts, s) \<Rightarrow> case a of (outs, hs) \<Rightarrow>
        frame s0 s \<and> lim s0 \<le> ph \<and> ph < lim s \<and> arr3 s ph = hs \<and>
        map (arr s) pouts = outs \<and> (\<forall>p \<in> set pouts. p < lim s))"

definition bwd_rel ::
  "store \<Rightarrow> nat \<Rightarrow> nat \<Rightarrow> nat \<Rightarrow> nat \<Rightarrow> nat \<Rightarrow> ndarray \<times> store \<Rightarrow> grads \<times> ndarray \<Rightarrow> bool" where
  "bwd_rel s0 dU dW dV db dc c a =
     (case c of (dh_next, s) \<Rightarrow>
        frame s0 s \<and> a = (params_at s dU dW dV db dc, dh_next) \<and>
        distinct [dU, dW, dV, db, dc] \<and>
        list_all (\<lambda>p. lim s0 \<le> p \<and> p < lim s) [dU, dW, dV, db, dc])"

section \<open>Example data\<close>

text \<open>
  The scenario of the specification: input_dim 2, hidden_dim 3, output_dim 2, the inputs
  (1, 0) and (0, 1), the targets 0 and 1, every weight 0.1 and every bias 0; with it two
  outputs and a hidden trajectory of the right shapes.
\<close>

definition ex_U :: ndarray where
  "ex_U = NDArray 2 [[1/10, 1/10], [1/10, 1/10], [1/10, 1/10]]"

definition ex_W :: ndarray where
  "ex_W = NDArray 3 [[1/10, 1/10, 1/10], [1/10, 1/10, 1/10], [1/10, 1/10, 1/10]]"

definition ex_V :: ndarray where
  "ex_V = NDArray 3 [[1/10, 1/10, 1/10], [1/10, 1/10, 1/10]]"

definition ex_b :: ndarray where
  "ex_b = NDArray 1 [[0], [0], [0]]"

definition ex_c :: ndarray where
  "ex_c = NDArray 1 [[0], [0]]"

definition ex_inputs :: "ndarray list" where
  "ex_inputs = [NDArray 1 [[1], [0]], NDArray 1 [[0], [1]]]"

definition ex_outputs :: "ndarray list" where
  "ex_outputs = [NDArray 1 [[1/2], [1/2]], NDArray 1 [[1/4], [3/4]]]"

definition ex_hidden :: "ndarray list" where
  "ex_hidden = [NDArray 1 [[0], [0], [0]], NDArray 1 [[1/10], [1/10], [1/10]],
                NDArray 1 [[1/5], [1/5], [1/5]]]"

definition ex_targets :: "int list" where
  "ex_targets = [0, 1]"

text \<open>
  A store for the scenario of the specification: the parameters at the addresses 0 to 4,
  the two inputs at 5 and 6, two outputs at 7 and 8 and a hidden trajectory at 9.
\<close>

definition ex_store :: store where
  "ex_store = \<lparr>arr = (\<lambda>p. NDArray 0 [])
                       (0 := ex_U, 1 := ex_W, 2 := ex_V, 3 := ex_b, 4 := ex_c,
                        5 := ex_inputs ! 0, 6 := ex_inputs ! 1,
                        7 := ex_outputs ! 0, 8 := ex_outputs ! 1),
                arr3 = (\<lambda>p. [])(9 := ex_hidden),
                lim = 10\<rparr>"


section \<open>Floating-point values\<close>

text \<open>
  Whether \<open>forward\<close> keeps a value in a range, and whether \<open>predict\<close> can sample, depends on
  the special values of IEEE 754 arithmetic, which the reals do not have: a result beyond
  the largest finite number is an infinity, and \<open>inf - inf\<close>, \<open>0 * inf\<close>, \<open>0 / 0\<close> and
  \<open>inf / inf\<close> are NaN, which every further operation propagates.  A floating-point value
  is a finite real, an infinity or NaN; an operation on finite values takes the exact real
  result and overflows beyond \<open>M\<close>, the largest finite number of the format.  Rounding of
  finite results, gradual underflow and the sign of zero are left out (a zero divisor
  counts as +0).
\<close>

datatype fl = Fin real | PInf | NInf | NaN



definition box :: "real \<Rightarrow> real \<Rightarrow> fl" where
  "box M r = (if M < r then PInf else if r < - M then NInf else Fin r)"

fun fl_neg :: "fl \<Rightarrow> fl" where
  "fl_neg (Fin a) = Fin (- a)"
| "fl_neg PInf = NInf"
| "fl_neg NInf = PInf"
| "fl_neg NaN = NaN"

fun fl_add :: "real \<Rightarrow> fl \<Rightarrow> fl \<Rightarrow> fl" where
  "fl_add M (Fin a) (Fin b) = box M (a + b)"
| "fl_add M NaN y = NaN"
| "fl_add M x NaN = NaN"
| "fl_add M PInf NInf = NaN"
| "fl_add M NInf PInf = NaN"
| "fl_add M PInf y = PInf"
| "fl_add M x PInf = PInf"
| "fl_add M NInf y = NInf"
| "fl_add M x NInf = NInf"

definition fl_sub :: "real \<Rightarrow> fl \<Rightarrow> fl \<Rightarrow> fl" where
  "fl_sub M x y = fl_add M x (fl_neg y)"

text \<open>The sign of a value that is not NaN: -1, 0 or 1.\<close>

fun fl_sgn :: "fl \<Rightarrow> real" where
  "fl_sgn (Fin a) = sgn a"
| "fl_sgn PInf = 1"
| "fl_sgn NInf = - 1"
| "fl_sgn NaN = 0"

definition inf_of :: "real \<Rightarrow> fl" where
  "inf_of s = (if s = 0 then NaN else if 0 < s then PInf else NInf)"


fun fl_div :: "real \<Rightarrow> fl \<Rightarrow> fl \<Rightarrow> fl" where
  "fl_div M (Fin a) (Fin b) = (if b = 0 then inf_of (sgn a) else box M (a / b))"
| "fl_div M NaN y = NaN"
| "fl_div M x NaN = NaN"
| "fl_div M (Fin a) y = Fin 0"
| "fl_div M x (Fin b) = inf_of (fl_sgn x * (if b < 0 then - 1 else 1))"
| "fl_div M x y = NaN"

fun fl_exp :: "real \<Rightarrow> fl \<Rightarrow> fl" where
  "fl_exp M (Fin a) = box M (exp a)"
| "fl_exp M PInf = PInf"
| "fl_exp M NInf = Fin 0"
| "fl_exp M NaN = NaN"


text \<open>The order of the values that are not NaN, and the maximum, which propagates NaN.\<close>

fun fl_le :: "fl \<Rightarrow> fl \<Rightarrow> bool" where
  "fl_le (Fin a) (Fin b) = (a \<le> b)"
| "fl_le NaN y = False"
| "fl_le x NaN = False"
| "fl_le NInf y = True"
| "fl_le x PInf = True"
| "fl_le x y = False"

definition fl_max2 :: "fl \<Rightarrow> fl \<Rightarrow> fl" where
  "fl_max2 x y = (if x = NaN \<or> y = NaN then NaN else if fl_le x y then y else x)"

fun fl_max :: "fl list \<Rightarrow> fl" where
  "fl_max [] = NaN"
| "fl_max [x] = x"
| "fl_max (x # y # ys) = fl_max2 x (fl_max (y # ys))"

definition fl_sum :: "real \<Rightarrow> fl list \<Rightarrow> fl" where
  "fl_sum M xs = foldl (fl_add M) (Fin 0) xs"

text \<open>
  The softmax of a list of values as NumPy's \<open>softmax\<close> of the notebook and PyTorch's
  \<open>nn.functional.softmax\<close> compute it: subtract the maximum, exponentiate, divide by the sum.
\<close>

definition softmax_list :: "real \<Rightarrow> fl list \<Rightarrow> fl list" where
  "softmax_list M xs =
     (let m = fl_max xs;
          es = map (\<lambda>x. fl_exp M (fl_sub M x m)) xs;
          S = fl_sum M es
      in map (\<lambda>e. fl_div M e S) es)"

text \<open>
  A probability: a finite value from 0 to 1.  A list of values that has a softmax: no NaN
  and no \<open>+inf\<close> in it, and at least one finite value.
\<close>

definition prob :: "fl \<Rightarrow> bool" where
  "prob x = (case x of Fin r \<Rightarrow> 0 \<le> r \<and> r \<le> 1 | _ \<Rightarrow> False)"




section \<open>Q3.ipynb: the generator\<close>














section \<open>Q1.ipynb: the forward pass on float64 values\<close>

text \<open>
  \<open>forward\<close> once more, on arrays of floating-point values, to settle what range and sum
  its results have.  The definitions follow those on real arrays operation by operation;
  \<open>np.dot\<close> adds its products from left to right, starting from 0.
\<close>

datatype farray = FArray (fshape1: nat) (frows: "fl list list")

definition fshape0 :: "farray \<Rightarrow> nat" where
  "fshape0 A = length (frows A)"

definition fentry :: "farray \<Rightarrow> nat \<Rightarrow> nat \<Rightarrow> fl" where
  "fentry A i j = frows A ! i ! j"

definition fwf :: "farray \<Rightarrow> bool" where
  "fwf A = list_all (\<lambda>r. length r = fshape1 A) (frows A)"

definition fmk :: "nat \<Rightarrow> nat \<Rightarrow> (nat \<Rightarrow> nat \<Rightarrow> fl) \<Rightarrow> farray" where
  "fmk r c f = FArray c (map (\<lambda>i. map (\<lambda>j. f i j) [0..<c]) [0..<r])"


























section \<open>Facts about arrays\<close>

declare bptt_dtanh.simps [simp del]

lemma shape0_mk [simp]: "shape0 (mk r c f) = r"
  by (simp add: shape0_def mk_def)

lemma shape1_mk [simp]: "shape1 (mk r c f) = c"
  by (simp add: mk_def)

lemma wf_mk [simp]: "wf (mk r c f)"
  by (simp add: wf_def mk_def list_all_iff)

lemma entry_mk [simp]: "i < r \<Longrightarrow> j < c \<Longrightarrow> entry (mk r c f) i j = f i j"
  by (simp add: entry_def mk_def)

lemma mk_cong: "(\<And>i j. i < r \<Longrightarrow> j < c \<Longrightarrow> f i j = g i j) \<Longrightarrow> mk r c f = mk r c g"
  by (simp add: mk_def)

lemma ebind_Inr [simp]: "ebind (Inr x) f = f x"
  by (simp add: ebind_def)

lemma ebind_Inl [simp]: "ebind (Inl e) f = Inl e"
  by (simp add: ebind_def)

lemma foldM_append: "foldM f (xs @ ys) s = ebind (foldM f xs s) (foldM f ys)"
  by (induction xs arbitrary: s) (auto simp: ebind_def split: sum.splits)

lemma bdim_same [simp]: "bdim a a = Inr a"
  by (simp add: bdim_def)

lemma np_binop_same:
  "shape0 A = shape0 B \<Longrightarrow> shape1 A = shape1 B \<Longrightarrow>
   np_binop f A B = Inr (mk (shape0 A) (shape1 A) (\<lambda>i j. f (entry A i j) (entry B i j)))"
  apply (simp add: np_binop_def)
  apply (rule mk_cong)
  apply (auto simp: bidx_def)
  done

lemma sum_list_upt: "sum_list (map f [0..<n]) = (\<Sum>k<n. f k)"
  by (simp add: interv_sum_list_conv_sum_set_nat atLeast0LessThan)

lemma np_dot_ok:
  "shape1 A = shape0 B \<Longrightarrow>
   np_dot A B = Inr (mk (shape0 A) (shape1 B) (\<lambda>i j. \<Sum>k<shape1 A. entry A i k * entry B k j))"
  by (simp add: np_dot_def sum_list_upt)

lemma flat_column: "shape1 A = 1 \<Longrightarrow> flat A = map (\<lambda>i. entry A i 0) [0..<shape0 A]"
  by (simp add: flat_def)

lemma amax_Max: "xs \<noteq> [] \<Longrightarrow> amax xs = Max (set xs)"
  by (induction xs rule: amax.induct) (auto simp: max.commute)

lemma np_max_column:
  "shape1 z = 1 \<Longrightarrow> 0 < shape0 z \<Longrightarrow> np_max z = Inr (colmax z)"
  by (simp add: np_max_def flat_column amax_Max colmax_def atLeast0LessThan)

lemma softmax_column:
  assumes "shape1 z = 1" "0 < shape0 z"
  shows "softmax z = Inr (softmax_spec z)"
proof -
  let ?e = "np_exp (np_map (\<lambda>v. v - colmax z) z)"
  have s: "np_sum ?e = (\<Sum>k<shape0 z. exp (entry z k 0 - colmax z))"
    using assms by (simp add: np_sum_def flat_column np_exp_def np_map_def sum_list_upt)
  show ?thesis
    using assms
    apply (simp add: softmax_def np_max_column Let_def s)
    apply (simp add: np_exp_def np_map_def softmax_spec_def)
    apply (rule mk_cong)
    apply simp
    done
qed

section \<open>The forward pass on well-shaped data\<close>

lemma np_add_same:
  "shape0 A = shape0 B \<Longrightarrow> shape1 A = shape1 B \<Longrightarrow>
   np_add A B = Inr (mk (shape0 A) (shape1 A) (\<lambda>i j. entry A i j + entry B i j))"
  by (simp add: np_add_def np_binop_same)

lemma set_hidden_ok:
  "i < length hs \<Longrightarrow> shape0 v = H \<Longrightarrow> shape1 v = 1 \<Longrightarrow> wf v \<Longrightarrow>
   set_hidden H hs i v = Inr (hs[i := mk H 1 (\<lambda>r c. entry v r 0)])"
  apply (simp add: set_hidden_def)
  apply (rule arg_cong [where f = "\<lambda>a. hs[i := a]"])
  apply (rule mk_cong)
  apply (auto simp: bidx_def)
  done

lemma forward_step_ok:
  assumes p: "params_ok H n o' U W V b c"
    and t: "t < length inputs" and x: "column n (inputs ! t)"
    and l: "Suc t < length hs" and h: "column H (hs ! t)"
  shows "forward_step H inputs U W V b c t (outs, hs) =
           Inr (outs @ [softmax_spec (logits_spec V c (cell_spec U W b (inputs ! t) (hs ! t)))],
                hs[Suc t := cell_spec U W b (inputs ! t) (hs ! t)])"
proof -
  let ?x = "inputs ! t" and ?h = "hs ! t"
  let ?h' = "cell_spec U W b ?x ?h"
  from p have sh: "shape0 U = H" "shape1 U = n" "shape0 W = H" "shape1 W = H"
    "shape0 V = o'" "shape1 V = H" "shape0 b = H" "shape1 b = 1" "shape0 c = o'" "shape1 c = 1" "0 < o'"
    by (simp_all add: params_ok_def)
  from x h have sx: "shape0 ?x = n" "shape1 ?x = 1" "shape0 ?h = H" "shape1 ?h = 1"
    by (simp_all add: column_def)
  have hid: "mk H 1 (\<lambda>r c. entry (np_tanh (mk H 1 (\<lambda>i j. entry (mk H 1 (\<lambda>i j. entry (mk H 1 (\<lambda>i j. \<Sum>k<n. entry U i k * entry ?x k j)) i j
        + entry (mk H 1 (\<lambda>i j. \<Sum>k<H. entry W i k * entry ?h k j)) i j)) i j + entry b i j))) r 0) = ?h'"
    unfolding cell_spec_def sh np_tanh_def np_map_def 
    by (rule mk_cong) (simp)
  have lg: "mk o' 1 (\<lambda>i j. entry (mk o' 1 (\<lambda>i j. \<Sum>k<H. entry V i k * entry ?h' k j)) i j + entry c i j)
      = logits_spec V c ?h'"
    unfolding logits_spec_def sh by (rule mk_cong) simp
  have sh': "shape0 ?h' = H" "shape1 ?h' = 1"
    by (simp_all add: cell_spec_def sh)
  have sl: "shape0 (logits_spec V c ?h') = o'" "shape1 (logits_spec V c ?h') = 1"
    by (simp_all add: logits_spec_def sh)
  show ?thesis
    using t l
    apply (simp add: forward_step_def item_def np_dot_ok sh sx np_add_same set_hidden_ok np_tanh_def np_map_def)
    apply (simp add: hid [unfolded np_tanh_def np_map_def, simplified] sh' np_dot_ok sh np_add_same lg [simplified] softmax_column sl)
    done
qed

lemma column_zeros: "column H (np_zeros H 1)"
  by (simp add: column_def np_zeros_def)

lemmas column_zeros_Suc [simp] = column_zeros [unfolded One_nat_def]

lemma column_cell: "shape0 U = H \<Longrightarrow> column H (cell_spec U W b x h)"
  by (simp add: column_def cell_spec_def)

lemma mk_zeros_id: "mk H 1 (\<lambda>r c. entry (np_zeros H 1) r 0) = np_zeros H 1"
  unfolding np_zeros_def by (rule mk_cong) simp

lemma forward_init:
  "set_hidden H (replicate (T + 1) (np_zeros H 1)) 0 (np_zeros H 1)
     = Inr (replicate (T + 1) (np_zeros H 1))"
proof -
  have "(replicate (T + 1) (np_zeros H 1))[0 := np_zeros H 1] = replicate (T + 1) (np_zeros H 1)"
    by (rule nth_equalityI) (auto simp: nth_list_update nth_Cons')
  moreover have "shape0 (np_zeros H 1) = H" "shape1 (np_zeros H 1) = 1" "wf (np_zeros H 1)"
    by (simp_all add: np_zeros_def)
  ultimately show ?thesis
    by (simp only: set_hidden_ok mk_zeros_id length_replicate add_gr_0 zero_less_one simp_thms)
qed

lemma forward_prefix:
  assumes p: "params_ok H n o' U W V b c"
    and xs: "\<forall>x \<in> set inputs. column n x"
  shows "k \<le> length inputs \<Longrightarrow>
    \<exists>st. foldM (forward_step H inputs U W V b c) [0..<k]
            ([], replicate (length inputs + 1) (np_zeros H 1)) = Inr st \<and>
         forward_inv H inputs U W V b c k st"
proof (induction k)
  case 0
  show ?case by (simp add: forward_inv_def nth_Cons')
next
  case (Suc k)
  then obtain outs hs where
    run: "foldM (forward_step H inputs U W V b c) [0..<k]
            ([], replicate (length inputs + 1) (np_zeros H 1)) = Inr (outs, hs)"
    and inv: "forward_inv H inputs U W V b c k (outs, hs)"
    by fastforce
  from Suc.prems have k: "k < length inputs" by simp
  from inv have len: "length outs = k" "length hs = length inputs + 1"
    and col: "\<And>i. i \<le> length inputs \<Longrightarrow> column H (hs ! i)"
    and z: "hs ! 0 = np_zeros H 1"
    and rec: "\<And>t. t < k \<Longrightarrow> hs ! (t + 1) = cell_spec U W b (inputs ! t) (hs ! t) \<and>
                 outs ! t = softmax_spec (logits_spec V c (hs ! (t + 1)))"
    by (simp_all add: forward_inv_def)
  let ?h' = "cell_spec U W b (inputs ! k) (hs ! k)"
  let ?st = "(outs @ [softmax_spec (logits_spec V c ?h')], hs[Suc k := ?h'])"
  from p have shU: "shape0 U = H" by (simp add: params_ok_def)
  have step: "forward_step H inputs U W V b c k (outs, hs) = Inr ?st"
    using p k xs len col [of k] by (intro forward_step_ok) auto
  have kl: "Suc k < length hs" using k len by simp
  have upd: "\<And>i. hs[Suc k := ?h'] ! i = (if i = Suc k then ?h' else hs ! i)"
    using kl by (simp add: nth_list_update)
  have "forward_inv H inputs U W V b c (Suc k) ?st"
    unfolding forward_inv_def prod.case
  proof (intro conjI allI impI)
    show "length (outs @ [softmax_spec (logits_spec V c ?h')]) = Suc k"
      using len by simp
    show "length (hs[Suc k := ?h']) = length inputs + 1"
      using len by simp
    show "column H (hs[Suc k := ?h'] ! i)" if "i \<le> length inputs" for i
      using that col [of i] by (simp add: upd column_cell [OF shU])
    show "hs[Suc k := ?h'] ! 0 = np_zeros H 1"
      using z by (simp add: upd)
    show "hs[Suc k := ?h'] ! (t + 1) = cell_spec U W b (inputs ! t) (hs[Suc k := ?h'] ! t)"
      if "t < Suc k" for t
      using that rec [of t] by (cases "t = k") (simp_all add: upd)
    show "(outs @ [softmax_spec (logits_spec V c ?h')]) ! t =
            softmax_spec (logits_spec V c (hs[Suc k := ?h'] ! (t + 1)))"
      if "t < Suc k" for t
      using that rec [of t] len by (cases "t = k") (simp_all add: upd nth_append)
  qed
  with run step show ?case
    by (simp add: foldM_append)
qed

lemma forward_ok:
  assumes "params_ok H n o' U W V b c" and "inputs_ok n inputs"
  shows "\<exists>outs hs. forward H inputs U W V b c = Inr (outs, hs) \<and>
           forward_inv H inputs U W V b c (length inputs) (outs, hs)"
proof -
  from assms(2) have "\<forall>x \<in> set inputs. column n x"
    by (simp add: inputs_ok_def list_all_iff)
  from forward_prefix [OF assms(1) this, of "length inputs"]
  obtain st where "foldM (forward_step H inputs U W V b c) [0..<length inputs]
            ([], replicate (length inputs + 1) (np_zeros H 1)) = Inr st"
    "forward_inv H inputs U W V b c (length inputs) st"
    by auto
  then show ?thesis
    by (cases st) (simp add: forward_def Let_def forward_init [unfolded One_nat_def add_Suc_right add_0_right] del: replicate.simps)
qed

text \<open>
  Claim C2.  For a well-shaped parameter set and a non-empty sequence of input vectors,
  \<open>forward\<close> returns, its hidden trajectory starts with the zero vector, and for every step
  \<open>t\<close> the next hidden state is \<open>tanh (U x\<^sub>t + W h\<^sub>t + b)\<close> and the output is the
  softmax of \<open>V h\<^sub>t\<^sub>+\<^sub>1 + c\<close>, where the softmax subtracts the maximum entry before
  exponentiating and divides by the sum of the exponentials.
\<close>

theorem forward_recurrence:
  assumes "params_ok H n o' U W V b c" and "inputs_ok n inputs" and "inputs \<noteq> []"
  shows "\<exists>outs hs. forward H inputs U W V b c = Inr (outs, hs) \<and>
           hs ! 0 = np_zeros H 1 \<and>
           (\<forall>t < length inputs.
              hs ! (t + 1) = cell_spec U W b (inputs ! t) (hs ! t) \<and>
              outs ! t = softmax_spec (logits_spec V c (hs ! (t + 1))))"
  using forward_ok [OF assms(1,2)] by (auto simp: forward_inv_def)

lemma ex_params_ok: "params_ok 3 2 2 ex_U ex_W ex_V ex_b ex_c"
  by (simp add: params_ok_def wf_def shape0_def ex_U_def ex_W_def ex_V_def ex_b_def ex_c_def)

lemma ex_inputs_ok: "inputs_ok 2 ex_inputs"
  by (simp add: inputs_ok_def column_def wf_def shape0_def ex_inputs_def)

lemma ex_inputs_nonempty: "ex_inputs \<noteq> []"
  by (simp add: ex_inputs_def)

text \<open>The scenario of the specification: input_dim 2, hidden_dim 3, output_dim 2.\<close>

theorem forward_recurrence_witness:
  "params_ok 3 2 2 ex_U ex_W ex_V ex_b ex_c \<and> inputs_ok 2 ex_inputs \<and> ex_inputs \<noteq> [] \<and>
   (\<exists>outs hs. forward 3 ex_inputs ex_U ex_W ex_V ex_b ex_c = Inr (outs, hs) \<and>
           hs ! 0 = np_zeros 3 1 \<and>
           (\<forall>t < length ex_inputs.
              hs ! (t + 1) = cell_spec ex_U ex_W ex_b (ex_inputs ! t) (hs ! t) \<and>
              outs ! t = softmax_spec (logits_spec ex_V ex_c (hs ! (t + 1)))))"
  using forward_recurrence [OF ex_params_ok ex_inputs_ok ex_inputs_nonempty]
    ex_params_ok ex_inputs_ok ex_inputs_nonempty
  by blast

section \<open>Facts about the error monad\<close>


lemma ebind_eq_Inr: "ebind m f = Inr y \<longleftrightarrow> (\<exists>x. m = Inr x \<and> f x = Inr y)"
  by (cases m) (simp_all)

section \<open>Input vectors of the wrong length\<close>

lemma verr_ebind: "verr m \<Longrightarrow> (\<And>x. m = Inr x \<Longrightarrow> verr (f x)) \<Longrightarrow> verr (ebind m f)"
  by (cases m) (simp_all add: verr_def)

lemma verr_np_dot: "verr (np_dot A B)"
  by (simp add: verr_def np_dot_def)

lemma verr_np_binop: "verr (np_binop f A B)"
  by (auto simp: verr_def np_binop_def bdim_def ebind_def split: sum.splits)

lemma verr_np_add: "verr (np_add A B)"
  by (simp add: np_add_def verr_np_binop)

lemma verr_softmax: "verr (softmax x)"
  by (auto simp: verr_def softmax_def np_max_def Let_def)

lemma verr_Inr: "verr (Inr x)"
  by (simp add: verr_def)

lemma verr_item: "i < length xs \<Longrightarrow> verr (item xs i)"
  by (simp add: verr_def item_def)

lemma verr_set_hidden: "i < length hs \<Longrightarrow> verr (set_hidden H hs i v)"
  by (simp add: verr_def set_hidden_def)

lemma set_hidden_length: "set_hidden H hs i v = Inr hs' \<Longrightarrow> length hs' = length hs"
  by (auto simp: set_hidden_def split: if_splits)

lemma forward_step_length:
  "forward_step H inputs U W V b c t (outs, hs) = Inr (outs', hs') \<Longrightarrow> length hs' = length hs"
  unfolding forward_step_def prod.case ebind_eq_Inr
  by (auto dest: set_hidden_length)

lemma forward_step_verr:
  assumes "t < length inputs" "length hs = length inputs + 1"
  shows "verr (forward_step H inputs U W V b c t (outs, hs))"
  unfolding forward_step_def prod.case using assms
  by (intro verr_ebind verr_np_dot verr_np_add verr_softmax
        verr_Inr verr_item verr_set_hidden)
     (auto dest: set_hidden_length)

lemma foldM_fails:
  assumes "x \<in> set xs" and "I s"
    and "\<And>y s. y \<in> set xs \<Longrightarrow> I s \<Longrightarrow> f y s = Inl E \<or> (\<exists>s'. f y s = Inr s' \<and> I s')"
    and "\<And>s. I s \<Longrightarrow> f x s = Inl E"
  shows "foldM f xs s = Inl E"
  using assms
proof (induction xs arbitrary: s)
  case Nil
  then show ?case by simp
next
  case (Cons y ys)
  show ?case
  proof (cases "f y s")
    case (Inl e)
    with Cons.prems(2) Cons.prems(3) [of y s] show ?thesis by auto
  next
    case (Inr s1)
    with Cons.prems(2) Cons.prems(3) [of y s] have I1: "I s1" by auto
    have "x \<noteq> y" using Cons.prems(2,4) Inr by auto
    with Cons.prems(1) have "x \<in> set ys" by simp
    from Cons.IH [OF this I1] Cons.prems(3,4) Inr show ?thesis by auto
  qed
qed

text \<open>
  Claim C6.  When some input vector's length differs from the column count of \<open>U\<close>
  (the input dimension), \<open>forward\<close> returns no result: it raises NumPy's ValueError,
  the shape error of \<open>np.dot\<close>.
\<close>

theorem forward_rejects_misshaped_input:
  assumes "t < length inputs" and "shape0 (inputs ! t) \<noteq> shape1 U"
  shows "forward H inputs U W V b c = Inl ValueError"
proof -
  let ?hs0 = "replicate (length inputs + 1) (np_zeros H 1)"
  let ?I = "\<lambda>st. length (snd st) = length inputs + 1"
  have bad: "forward_step H inputs U W V b c t st = Inl ValueError" for st
    using assms by (cases st) (simp add: forward_step_def item_def np_dot_def)
  have step: "forward_step H inputs U W V b c y st = Inl ValueError \<or>
              (\<exists>st'. forward_step H inputs U W V b c y st = Inr st' \<and> ?I st')"
    if "y \<in> set [0..<length inputs]" "?I st" for y st
  proof (cases st)
    case (Pair outs hs)
    with that have y: "y < length inputs" and l: "length hs = length inputs + 1" by auto
    show ?thesis
    proof (cases "forward_step H inputs U W V b c y (outs, hs)")
      case (Inl e)
      with forward_step_verr [OF y l, of H U W V b c outs] Pair show ?thesis
        by (simp add: verr_def)
    next
      case (Inr st')
      with forward_step_length [of H inputs U W V b c y outs hs "fst st'" "snd st'"] l Pair
      show ?thesis by simp
    qed
  qed
  have "foldM (forward_step H inputs U W V b c) [0..<length inputs] ([], ?hs0) = Inl ValueError"
    by (rule foldM_fails [where x = t and I = ?I]) (use assms(1) bad step in auto)
  then show ?thesis
    by (simp add: forward_def Let_def forward_init [unfolded One_nat_def add_Suc_right add_0_right] del: replicate.simps)
qed

theorem forward_rejects_misshaped_input_witness:
  "(1::nat) < length [NDArray 1 [[1], [0]], NDArray 1 [[0], [1], [1]]] \<and>
   shape0 ([NDArray 1 [[1], [0]], NDArray 1 [[0], [1], [1]]] ! 1) \<noteq> shape1 ex_U \<and>
   forward 3 [NDArray 1 [[1], [0]], NDArray 1 [[0], [1], [1]]] ex_U ex_W ex_V ex_b ex_c = Inl ValueError"
proof -
  have a: "(1::nat) < length [NDArray 1 [[1], [0]], NDArray 1 [[0], [1], [1]]]" by simp
  have b: "shape0 ([NDArray 1 [[1], [0]], NDArray 1 [[0], [1], [1]]] ! 1) \<noteq> shape1 ex_U"
    by (simp add: shape0_def ex_U_def)
  from forward_rejects_misshaped_input [OF a b] a b show ?thesis by blast
qed

section \<open>The backward pass on well-shaped data\<close>

lemma np_iadd_same:
  "shape0 A = shape0 B \<Longrightarrow> shape1 A = shape1 B \<Longrightarrow> np_iadd A B = Inr (vadd A B)"
  by (simp add: np_iadd_def np_add_same vadd_def)

lemma np_sub_same:
  "shape0 A = shape0 B \<Longrightarrow> shape1 A = shape1 B \<Longrightarrow> np_sub A B = Inr (vsub A B)"
  by (simp add: np_sub_def np_binop_same vsub_def)

lemma np_mul_same:
  "shape0 A = shape0 B \<Longrightarrow> shape1 A = shape1 B \<Longrightarrow> np_mul A B = Inr (hadamard A B)"
  by (simp add: np_mul_def np_binop_same hadamard_def)

lemma np_add_vadd:
  "shape0 A = shape0 B \<Longrightarrow> shape1 A = shape1 B \<Longrightarrow> np_add A B = Inr (vadd A B)"
  by (simp add: np_add_same vadd_def)

lemma set_row_one_hot:
  assumes "0 \<le> k" "k < int n"
  shows "set_row (np_zeros n 1) k 1 = Inr (one_hot n (nat k))"
  using assms unfolding set_row_def Let_def one_hot_def np_zeros_def
  by (auto intro!: mk_cong)

lemma dot_outer:
  assumes "shape1 a = 1" "shape1 b = 1"
  shows "np_dot a (transpose_nd b) = Inr (outer a b)"
  using assms unfolding outer_def
  by (auto simp: np_dot_def transpose_nd_def intro!: mk_cong)

lemma dot_transpose:
  assumes "shape0 M = shape0 v" "shape1 v = 1"
  shows "np_dot (transpose_nd M) v = Inr (matTvec M v)"
  using assms unfolding matTvec_def
  by (auto simp: np_dot_def transpose_nd_def sum_list_upt intro!: mk_cong sum.cong)

lemma backward_step_ok:
  assumes p: "params_ok H n o' U W V b c"
    and t: "t < length inputs" "t < length outputs" "t < length targets" "Suc t < length hs"
    and x: "column n (inputs ! t)" and y: "column o' (outputs ! t)"
    and k: "0 \<le> targets ! t" "targets ! t < int o'"
    and h0: "column H (hs ! t)" and h1: "column H (hs ! Suc t)"
    and g: "grads_ok U W V b c (dU, dW, dV, db, dc)" and d: "column H dh_next"
  shows "backward_step inputs outputs hs targets U W V b c t ((dU, dW, dV, db, dc), dh_next) =
     (let dy = bptt_dy outputs targets t;
          dtanh = dtanh_step V (hs ! Suc t) dy dh_next
      in Inr ((vadd dU (outer dtanh (inputs ! t)), vadd dW (outer dtanh (hs ! t)),
               vadd dV (outer dy (hs ! Suc t)), vadd db dtanh, vadd dc dy),
              matTvec W dtanh))"
proof -
  from p have sh: "shape0 U = H" "shape1 U = n" "shape0 W = H" "shape1 W = H"
    "shape0 V = o'" "shape1 V = H" "shape0 b = H" "shape1 b = 1" "shape0 c = o'" "shape1 c = 1"
    by (simp_all add: params_ok_def)
  from g have sg: "shape0 dU = H" "shape1 dU = n" "shape0 dW = H" "shape1 dW = H"
    "shape0 dV = o'" "shape1 dV = H" "shape0 db = H" "shape1 db = 1" "shape0 dc = o'" "shape1 dc = 1"
    by (simp_all add: grads_ok_def sh)
  from x y h0 h1 d have sc: "shape0 (inputs ! t) = n" "shape1 (inputs ! t) = 1"
    "shape0 (outputs ! t) = o'" "shape1 (outputs ! t) = 1"
    "shape0 (hs ! t) = H" "shape1 (hs ! t) = 1"
    "shape0 (hs ! Suc t) = H" "shape1 (hs ! Suc t) = 1"
    "shape0 dh_next = H" "shape1 dh_next = 1"
    by (simp_all add: column_def)
  let ?dy = "bptt_dy outputs targets t"
  let ?dtanh = "dtanh_step V (hs ! Suc t) ?dy dh_next"
  have sdy: "shape0 ?dy = o'" "shape1 ?dy = 1"
    by (simp_all add: bptt_dy_def vsub_def sc)
  have sdt: "shape0 ?dtanh = H" "shape1 ?dtanh = 1"
    by (simp_all add: dtanh_step_def hadamard_def np_map_def sc)
  have e1: "set_row (np_zeros_like (outputs ! t)) (targets ! t) 1 = Inr (one_hot o' (nat (targets ! t)))"
    using k by (simp add: np_zeros_like_def sc set_row_one_hot [unfolded One_nat_def])
  have e2: "np_sub (outputs ! t) (one_hot o' (nat (targets ! t))) = Inr ?dy"
    by (simp add: np_sub_same sc one_hot_def bptt_dy_def)
  have e3: "np_dot ?dy (transpose_nd (hs ! Suc t)) = Inr (outer ?dy (hs ! Suc t))"
    by (simp add: dot_outer sdy sc)
  have e4: "np_iadd dV (outer ?dy (hs ! Suc t)) = Inr (vadd dV (outer ?dy (hs ! Suc t)))"
    by (simp add: np_iadd_same sg outer_def sdy sc)
  have e5: "np_iadd dc ?dy = Inr (vadd dc ?dy)"
    by (simp add: np_iadd_same sg sdy)
  have e6: "np_dot (transpose_nd V) ?dy = Inr (matTvec V ?dy)"
    by (simp add: dot_transpose sh sdy)
  have e7: "np_add (matTvec V ?dy) dh_next = Inr (vadd (matTvec V ?dy) dh_next)"
    by (simp add: np_add_vadd matTvec_def sh sc)
  have e8: "np_mul (np_map (\<lambda>v. 1 - v ^ 2) (hs ! Suc t)) (vadd (matTvec V ?dy) dh_next) = Inr ?dtanh"
    by (simp add: np_mul_same dtanh_step_def np_map_def vadd_def matTvec_def sh sc)
  have e9: "np_iadd db ?dtanh = Inr (vadd db ?dtanh)"
    by (simp add: np_iadd_same sg sdt)
  have e10: "np_dot ?dtanh (transpose_nd (inputs ! t)) = Inr (outer ?dtanh (inputs ! t))"
    by (simp add: dot_outer sdt sc)
  have e11: "np_iadd dU (outer ?dtanh (inputs ! t)) = Inr (vadd dU (outer ?dtanh (inputs ! t)))"
    by (simp add: np_iadd_same sg outer_def sdt sc)
  have e12: "np_dot ?dtanh (transpose_nd (hs ! t)) = Inr (outer ?dtanh (hs ! t))"
    by (simp add: dot_outer sdt sc)
  have e13: "np_iadd dW (outer ?dtanh (hs ! t)) = Inr (vadd dW (outer ?dtanh (hs ! t)))"
    by (simp add: np_iadd_same sg outer_def sdt sc)
  have e14: "np_dot (transpose_nd W) ?dtanh = Inr (matTvec W ?dtanh)"
    by (simp add: dot_transpose sh sdt)
  have it: "item outputs t = Inr (outputs ! t)" "item targets t = Inr (targets ! t)"
    "item hs (t + 1) = Inr (hs ! Suc t)" "item inputs t = Inr (inputs ! t)"
    "item hs t = Inr (hs ! t)"
    using t by (simp_all add: item_def)
  show ?thesis
    unfolding backward_step_def prod.case Let_def
    by (simp only: it ebind_Inr e1 e2 e3 e4 e5 e6 e7 e8 e9 e10 e11 e12 e13 e14)
qed

lemma bptt_dtanh_unfold:
  "bptt_dtanh W V hs outputs targets T t =
     dtanh_step V (hs ! Suc t) (bptt_dy outputs targets t) (bptt_carry W V hs outputs targets T (Suc t))"
  by (subst bptt_dtanh.simps) (simp add: dtanh_step_def bptt_carry_def)

lemma grad_sum_empty: "grad_sum r c T T f = np_zeros r c"
  by (simp add: grad_sum_def np_zeros_def)

lemma grad_sum_step:
  assumes "k < T"
  shows "vadd (grad_sum r c (Suc k) T f) (f k) = grad_sum r c k T f"
  unfolding vadd_def grad_sum_def using assms
  by (auto intro!: mk_cong simp: sum.atLeast_Suc_lessThan)

lemma grads_ok_bptt: "grads_ok U W V b c (bptt_grads inputs outputs hs targets U W V b c k)"
  by (simp add: grads_ok_def bptt_grads_def Let_def grad_sum_def)

lemma backward_suffix:
  assumes p: "params_ok H n o' U W V b c"
    and xs: "inputs_ok n inputs"
    and ys: "length outputs = length inputs" "list_all (column o') outputs"
    and hs: "length hs = length inputs + 1" "list_all (column H) hs"
    and ts: "length targets = length inputs" "targets_ok o' targets"
  shows "k \<le> length inputs \<Longrightarrow>
     foldM (backward_step inputs outputs hs targets U W V b c) (rev [k..<length inputs])
        ((np_zeros_like U, np_zeros_like W, np_zeros_like V, np_zeros_like b, np_zeros_like c),
         np_zeros_like (hs ! 0))
     = Inr (bptt_grads inputs outputs hs targets U W V b c k,
            bptt_carry W V hs outputs targets (length inputs) k)"
proof (induction k rule: inc_induct)
  case base
  show ?case
    by (simp add: bptt_grads_def Let_def grad_sum_empty np_zeros_like_def bptt_carry_def)
next
  case (step k)
  let ?T = "length inputs"
  let ?g = "bptt_grads inputs outputs hs targets U W V b c"
  let ?dt = "bptt_dtanh W V hs outputs targets ?T"
  from p have shW: "shape0 W = H" "shape1 W = H" by (simp_all add: params_ok_def)
  have c0: "column H (hs ! 0)" using hs by (simp add: list_all_length)
  have carry: "column H (bptt_carry W V hs outputs targets ?T (Suc k))"
    using c0 by (simp add: bptt_carry_def column_def matTvec_def shW np_zeros_like_def np_zeros_def)
  obtain dU dW dV db dc where gk: "?g (Suc k) = (dU, dW, dV, db, dc)"
    by (cases "?g (Suc k)") auto
  have gok: "grads_ok U W V b c (dU, dW, dV, db, dc)"
    using grads_ok_bptt [of U W V b c inputs outputs hs targets "Suc k"] gk by simp
  have st: "backward_step inputs outputs hs targets U W V b c k ((dU, dW, dV, db, dc),
              bptt_carry W V hs outputs targets ?T (Suc k))
     = Inr ((vadd dU (outer (?dt k) (inputs ! k)), vadd dW (outer (?dt k) (hs ! k)),
               vadd dV (outer (bptt_dy outputs targets k) (hs ! Suc k)), vadd db (?dt k),
               vadd dc (bptt_dy outputs targets k)),
              matTvec W (?dt k))"
    using step.hyps xs ys hs ts
    by (subst backward_step_ok [OF p _ _ _ _ _ _ _ _ _ _ gok carry])
       (auto simp: inputs_ok_def targets_ok_def list_all_length Let_def bptt_dtanh_unfold)
  have nx: "(vadd dU (outer (?dt k) (inputs ! k)), vadd dW (outer (?dt k) (hs ! k)),
               vadd dV (outer (bptt_dy outputs targets k) (hs ! Suc k)), vadd db (?dt k),
               vadd dc (bptt_dy outputs targets k)) = ?g k"
    using gk step.hyps(2)
    by (auto simp: bptt_grads_def Let_def grad_sum_step [symmetric])
  have "rev [k..<?T] = rev [Suc k..<?T] @ [k]"
    using step.hyps(2) by (simp add: upt_conv_Cons)
  then show ?case
    using step.IH st nx step.hyps(2)
    by (simp add: foldM_append gk bptt_carry_def)
qed

lemma backward_ok:
  assumes p: "params_ok H n o' U W V b c"
    and xs: "inputs_ok n inputs"
    and ys: "length outputs = length inputs" "list_all (column o') outputs"
    and hs: "length hs = length inputs + 1" "list_all (column H) hs"
    and ts: "length targets = length inputs" "targets_ok o' targets"
  shows "backward inputs outputs hs targets U W V b c =
           Inr (bptt_grads inputs outputs hs targets U W V b c 0)"
  using backward_suffix [OF assms, of 0] hs(1)
  by (simp add: backward_def Let_def item_def)

text \<open>
  Claim C1.  For a well-shaped parameter set, input vectors, outputs, a hidden trajectory
  of length \<open>T + 1\<close> and targets in range, \<open>backward\<close> returns the five gradients, and each
  is the sum over all steps \<open>t < T\<close> of its per-step term: \<open>dtanh\<^sub>t \<otimes> inputs[t]\<close> for dU,
  \<open>dtanh\<^sub>t \<otimes> hidden[t]\<close> for dW, \<open>dy\<^sub>t \<otimes> hidden[t+1]\<close> for dV, \<open>dtanh\<^sub>t\<close> for db and
  \<open>dy\<^sub>t\<close> for dc, where \<open>dy\<^sub>t = outputs[t] - one_hot(targets[t])\<close> and \<open>dtanh\<^sub>t\<close> is
  computed from the step after it, starting from a zero carrier at the last step.
\<close>

theorem backward_is_bptt:
  assumes "params_ok H n o' U W V b c"
    and "inputs_ok n inputs"
    and "length outputs = length inputs" and "list_all (column o') outputs"
    and "length hs = length inputs + 1" and "list_all (column H) hs"
    and "length targets = length inputs" and "targets_ok o' targets"
  shows "backward inputs outputs hs targets U W V b c =
     Inr (grad_sum H n 0 (length inputs)
            (\<lambda>t. outer (bptt_dtanh W V hs outputs targets (length inputs) t) (inputs ! t)),
          grad_sum H H 0 (length inputs)
            (\<lambda>t. outer (bptt_dtanh W V hs outputs targets (length inputs) t) (hs ! t)),
          grad_sum o' H 0 (length inputs)
            (\<lambda>t. outer (bptt_dy outputs targets t) (hs ! (t + 1))),
          grad_sum H 1 0 (length inputs) (bptt_dtanh W V hs outputs targets (length inputs)),
          grad_sum o' 1 0 (length inputs) (bptt_dy outputs targets))"
proof -
  from assms(1) have sh: "shape0 U = H" "shape1 U = n" "shape0 W = H" "shape1 W = H"
    "shape0 V = o'" "shape1 V = H" "shape0 b = H" "shape1 b = 1" "shape0 c = o'" "shape1 c = 1"
    by (simp_all add: params_ok_def)
  show ?thesis
    unfolding backward_ok [OF assms] bptt_grads_def Let_def sh ..
qed

lemma ex_outputs_ok: "list_all (column 2) ex_outputs"
  by (simp add: column_def wf_def shape0_def ex_outputs_def)

lemma ex_hidden_ok: "list_all (column 3) ex_hidden"
  by (simp add: column_def wf_def shape0_def ex_hidden_def)

lemma ex_targets_ok: "targets_ok 2 ex_targets"
  by (simp add: targets_ok_def ex_targets_def)

lemma ex_lengths:
  "length ex_outputs = length ex_inputs" "length ex_hidden = length ex_inputs + 1"
  "length ex_targets = length ex_inputs"
  by (simp_all add: ex_outputs_def ex_inputs_def ex_hidden_def ex_targets_def)

theorem backward_is_bptt_witness:
  "params_ok 3 2 2 ex_U ex_W ex_V ex_b ex_c \<and> inputs_ok 2 ex_inputs \<and>
   length ex_outputs = length ex_inputs \<and> list_all (column 2) ex_outputs \<and>
   length ex_hidden = length ex_inputs + 1 \<and> list_all (column 3) ex_hidden \<and>
   length ex_targets = length ex_inputs \<and> targets_ok 2 ex_targets \<and>
   backward ex_inputs ex_outputs ex_hidden ex_targets ex_U ex_W ex_V ex_b ex_c =
     Inr (grad_sum 3 2 0 (length ex_inputs)
            (\<lambda>t. outer (bptt_dtanh ex_W ex_V ex_hidden ex_outputs ex_targets (length ex_inputs) t)
                    (ex_inputs ! t)),
          grad_sum 3 3 0 (length ex_inputs)
            (\<lambda>t. outer (bptt_dtanh ex_W ex_V ex_hidden ex_outputs ex_targets (length ex_inputs) t)
                    (ex_hidden ! t)),
          grad_sum 2 3 0 (length ex_inputs)
            (\<lambda>t. outer (bptt_dy ex_outputs ex_targets t) (ex_hidden ! (t + 1))),
          grad_sum 3 1 0 (length ex_inputs)
            (bptt_dtanh ex_W ex_V ex_hidden ex_outputs ex_targets (length ex_inputs)),
          grad_sum 2 1 0 (length ex_inputs) (bptt_dy ex_outputs ex_targets))"
  using backward_is_bptt [OF ex_params_ok ex_inputs_ok ex_lengths(1) ex_outputs_ok
      ex_lengths(2) ex_hidden_ok ex_lengths(3) ex_targets_ok]
    ex_params_ok ex_inputs_ok ex_lengths ex_outputs_ok ex_hidden_ok ex_targets_ok
  by simp

section \<open>Empty sequences\<close>

text \<open>
  Claim C5, as the code has it.  On an empty input sequence \<open>forward\<close> raises nothing: it
  returns no outputs and a hidden trajectory that holds the initial zero state only.
  \<open>backward\<close> on an empty sequence, given a hidden trajectory with at least its initial
  state, returns the five accumulators as they were initialised, all zero.
\<close>

theorem empty_sequence_returns:
  "forward H [] U W V b c = Inr ([], [np_zeros H 1]) \<and>
   backward [] outputs (h # hs) targets U W V b c =
     Inr (np_zeros_like U, np_zeros_like W, np_zeros_like V, np_zeros_like b, np_zeros_like c)"
proof -
  have "forward H [] U W V b c = Inr ([], [np_zeros H 1])"
    using forward_init [of H 0] by (simp add: forward_def)
  moreover have "backward [] outputs (h # hs) targets U W V b c =
     Inr (np_zeros_like U, np_zeros_like W, np_zeros_like V, np_zeros_like b, np_zeros_like c)"
    by (simp add: backward_def item_def)
  ultimately show ?thesis by simp
qed

theorem empty_sequence_counterexample:
  "forward 3 [] ex_U ex_W ex_V ex_b ex_c = Inr ([], [NDArray 1 [[0], [0], [0]]]) \<and>
   backward [] [] [NDArray 1 [[0], [0], [0]]] [] ex_U ex_W ex_V ex_b ex_c =
     Inr (NDArray 2 [[0, 0], [0, 0], [0, 0]],
          NDArray 3 [[0, 0, 0], [0, 0, 0], [0, 0, 0]],
          NDArray 3 [[0, 0, 0], [0, 0, 0]],
          NDArray 1 [[0], [0], [0]],
          NDArray 1 [[0], [0]])"
  by (simp add: forward_def backward_def set_hidden_def item_def np_zeros_like_def np_zeros_def
      mk_def shape0_def bidx_def entry_def ex_U_def ex_W_def ex_V_def ex_b_def ex_c_def
      eval_nat_numeral)

section \<open>The training step\<close>

lemma descend_ok:
  assumes "shape0 dP = shape0 P" "shape1 dP = shape1 P"
  shows "descend lr P dP = Inr (gd_spec lr P dP)"
  using assms unfolding descend_def gd_spec_def
  by (auto simp: np_sub_def np_binop_same np_map_def intro!: mk_cong)

lemma item2_ok:
  assumes "0 \<le> k" "k < int (shape0 A)" "shape1 A = 1"
  shows "item2 A k = Inr (entry A (nat k) 0)"
  using assms by (simp add: item2_def Let_def)

lemma loss_prefix:
  assumes "length outputs = length targets"
    and "list_all (column o') outputs" and "targets_ok o' targets"
  shows "k \<le> length targets \<Longrightarrow>
     foldM (loss_step outputs targets) [0..<k] 0 =
       Inr (- (\<Sum>t<k. ln (entry (outputs ! t) (nat (targets ! t)) 0 + 1 / 10 ^ 8)))"
proof (induction k)
  case 0
  show ?case by simp
next
  case (Suc k)
  then have k: "k < length targets" by simp
  with assms have "column o' (outputs ! k)" "0 \<le> targets ! k" "targets ! k < int o'"
    by (simp_all add: list_all_length targets_ok_def)
  then have "item2 (outputs ! k) (targets ! k) = Inr (entry (outputs ! k) (nat (targets ! k)) 0)"
    by (intro item2_ok) (simp_all add: column_def)
  then have "loss_step outputs targets k l =
      Inr (l - ln (entry (outputs ! k) (nat (targets ! k)) 0 + 1 / 10 ^ 8))" for l
    using k assms(1) by (simp add: loss_step_def item_def)
  with Suc show ?case
    by (simp add: foldM_append)
qed

lemma column_softmax_spec: "shape0 z = n \<Longrightarrow> column n (softmax_spec z)"
  by (simp add: column_def softmax_spec_def)

lemma forward_inv_shapes:
  assumes p: "params_ok H n o' U W V b c"
    and inv: "forward_inv H inputs U W V b c (length inputs) (outs, hs)"
  shows "length outs = length inputs" "length hs = length inputs + 1"
    "list_all (column o') outs" "list_all (column H) hs"
proof -
  from inv show l: "length outs = length inputs" "length hs = length inputs + 1"
    by (simp_all add: forward_inv_def)
  from p have "shape0 V = o'" by (simp add: params_ok_def)
  then have "column o' (softmax_spec (logits_spec V c h))" for h
    by (intro column_softmax_spec) (simp add: logits_spec_def)
  with inv l show "list_all (column o') outs"
    by (simp add: forward_inv_def list_all_length)
  from inv l show "list_all (column H) hs"
    by (simp add: forward_inv_def list_all_length)
qed

text \<open>
  Claim C3.  For a well-shaped parameter set, \<open>T \<ge> 1\<close> input vectors, \<open>T\<close> targets in range
  and any step size, \<open>train_step\<close> returns every parameter minus the step size times its
  gradient from \<open>backward\<close>, and the loss \<open>-(1/T) \<Sum>\<^sub>t ln (outputs[t][targets[t]] + 1e-8)\<close>
  over the outputs of the forward pass on the parameters before the update.
\<close>

theorem train_step_is_gradient_descent:
  assumes "params_ok H n o' U W V b c" and "inputs_ok n inputs" and "inputs \<noteq> []"
    and "length targets = length inputs" and "targets_ok o' targets"
  shows "\<exists>outs hs dU dW dV db dc.
     forward H inputs U W V b c = Inr (outs, hs) \<and>
     backward inputs outs hs targets U W V b c = Inr (dU, dW, dV, db, dc) \<and>
     train_step H inputs targets U W V b c lr =
       Inr ((gd_spec lr U dU, gd_spec lr W dW, gd_spec lr V dV, gd_spec lr b db, gd_spec lr c dc),
            - (1 / real (length inputs)) *
              (\<Sum>t<length inputs. ln (entry (outs ! t) (nat (targets ! t)) 0 + 1 / 10 ^ 8)))"
proof -
  from forward_ok [OF assms(1,2)] obtain outs hs where
    f: "forward H inputs U W V b c = Inr (outs, hs)"
    and inv: "forward_inv H inputs U W V b c (length inputs) (outs, hs)"
    by blast
  note sh = forward_inv_shapes [OF assms(1) inv]
  let ?g = "bptt_grads inputs outs hs targets U W V b c 0"
  have bw: "backward inputs outs hs targets U W V b c = Inr ?g"
    by (rule backward_ok [OF assms(1,2) sh(1,3,2,4) assms(4,5)])
  obtain dU dW dV db dc where g: "?g = (dU, dW, dV, db, dc)"
    by (cases ?g) auto
  from grads_ok_bptt [of U W V b c inputs outs hs targets 0] g
  have d: "descend lr U dU = Inr (gd_spec lr U dU)" "descend lr W dW = Inr (gd_spec lr W dW)"
    "descend lr V dV = Inr (gd_spec lr V dV)" "descend lr b db = Inr (gd_spec lr b db)"
    "descend lr c dc = Inr (gd_spec lr c dc)"
    by (simp_all add: grads_ok_def descend_ok)
  have l: "foldM (loss_step outs targets) [0..<length targets] 0 =
       Inr (- (\<Sum>t<length targets. ln (entry (outs ! t) (nat (targets ! t)) 0 + 1 / 10 ^ 8)))"
    by (rule loss_prefix [OF _ sh(3) assms(5)]) (simp_all add: sh assms(4))
  have "train_step H inputs targets U W V b c lr =
       Inr ((gd_spec lr U dU, gd_spec lr W dW, gd_spec lr V dV, gd_spec lr b db, gd_spec lr c dc),
            - (1 / real (length inputs)) *
              (\<Sum>t<length inputs. ln (entry (outs ! t) (nat (targets ! t)) 0 + 1 / 10 ^ 8)))"
    using assms(3,4) by (simp add: train_step_def f bw g d l [unfolded assms(4)])
  with f bw g show ?thesis by simp
qed

theorem train_step_is_gradient_descent_witness:
  "params_ok 3 2 2 ex_U ex_W ex_V ex_b ex_c \<and> inputs_ok 2 ex_inputs \<and> ex_inputs \<noteq> [] \<and>
   length ex_targets = length ex_inputs \<and> targets_ok 2 ex_targets \<and>
   (\<exists>outs hs dU dW dV db dc.
     forward 3 ex_inputs ex_U ex_W ex_V ex_b ex_c = Inr (outs, hs) \<and>
     backward ex_inputs outs hs ex_targets ex_U ex_W ex_V ex_b ex_c = Inr (dU, dW, dV, db, dc) \<and>
     train_step 3 ex_inputs ex_targets ex_U ex_W ex_V ex_b ex_c (1 / 10) =
       Inr ((gd_spec (1 / 10) ex_U dU, gd_spec (1 / 10) ex_W dW, gd_spec (1 / 10) ex_V dV,
             gd_spec (1 / 10) ex_b db, gd_spec (1 / 10) ex_c dc),
            - (1 / real (length ex_inputs)) *
              (\<Sum>t<length ex_inputs. ln (entry (outs ! t) (nat (ex_targets ! t)) 0 + 1 / 10 ^ 8))))"
  using train_step_is_gradient_descent [OF ex_params_ok ex_inputs_ok ex_inputs_nonempty
      ex_lengths(3) ex_targets_ok, of "1 / 10"]
    ex_params_ok ex_inputs_ok ex_inputs_nonempty ex_lengths(3) ex_targets_ok
  by blast

section \<open>What forward and backward leave unchanged\<close>

lemma frame_refl: "frame s s"
  by (simp add: frame_def)

lemma pres_bind:
  assumes "pres s0 m Q" and "\<And>x. Q x \<Longrightarrow> pres s0 (f x) R"
  shows "pres s0 (sbind m f) R"
  unfolding pres_def
proof (intro allI impI)
  fix s assume fs: "frame s0 s"
  obtain r s1 where ms: "m s = (r, s1)" by (cases "m s") auto
  from assms(1) fs ms have f1: "frame s0 s1" and q: "\<And>x. r = Inr x \<Longrightarrow> Q x"
    by (auto simp: pres_def)
  show "frame s0 (snd (sbind m f s)) \<and> (\<forall>x. fst (sbind m f s) = Inr x \<longrightarrow> R x)"
  proof (cases r)
    case (Inl e)
    with ms f1 show ?thesis by (simp add: sbind_def)
  next
    case (Inr x)
    with q have "pres s0 (f x) R" by (intro assms(2)) simp
    with f1 have "frame s0 (snd (f x s1)) \<and> (\<forall>y. fst (f x s1) = Inr y \<longrightarrow> R y)"
      by (simp add: pres_def)
    with ms Inr show ?thesis by (simp add: sbind_def)
  qed
qed

lemma pres_return: "Q x \<Longrightarrow> pres s0 (sreturn x) Q"
  by (simp add: pres_def sreturn_def)

lemma pres_lift: "pres s0 (lift r) (\<lambda>x. True)"
  by (simp add: pres_def lift_def)

lemma pres_read_arr: "pres s0 (read_arr p) (\<lambda>x. True)"
  by (simp add: pres_def read_arr_def)

lemma pres_read_arr3: "pres s0 (read_arr3 p) (\<lambda>x. True)"
  by (simp add: pres_def read_arr3_def)

lemma pres_new_arr: "pres s0 (new_arr A) (\<lambda>p. lim s0 \<le> p)"
  by (auto simp: pres_def new_arr_def frame_def)

lemma pres_new_arr3: "pres s0 (new_arr3 As) (\<lambda>p. lim s0 \<le> p)"
  by (auto simp: pres_def new_arr3_def frame_def)

lemma pres_write_arr: "lim s0 \<le> p \<Longrightarrow> pres s0 (write_arr p A) (\<lambda>x. True)"
  by (auto simp: pres_def write_arr_def frame_def)

lemma pres_write_arr3: "lim s0 \<le> p \<Longrightarrow> pres s0 (write_arr3 p As) (\<lambda>x. True)"
  by (auto simp: pres_def write_arr3_def frame_def)

lemma pres_set_hidden_st: "lim s0 \<le> ph \<Longrightarrow> pres s0 (set_hidden_st H ph i v) (\<lambda>x. True)"
  unfolding set_hidden_st_def
  by (intro pres_bind [OF pres_read_arr3] pres_bind [OF pres_lift] pres_write_arr3)

lemma pres_iadd_st: "lim s0 \<le> p \<Longrightarrow> pres s0 (iadd_st p B) (\<lambda>x. True)"
  unfolding iadd_st_def
  by (intro pres_bind [OF pres_read_arr] pres_bind [OF pres_lift] pres_write_arr)

lemma pres_set_row_st: "lim s0 \<le> p \<Longrightarrow> pres s0 (set_row_st p k v) (\<lambda>x. True)"
  unfolding set_row_st_def
  by (intro pres_bind [OF pres_read_arr] pres_bind [OF pres_lift] pres_write_arr)

lemma pres_sfoldM:
  assumes "\<And>x a. pres s0 (f x a) (\<lambda>x. True)"
  shows "pres s0 (sfoldM f xs a) (\<lambda>x. True)"
proof (induction xs arbitrary: a)
  case Nil
  show ?case by (simp add: pres_return)
next
  case (Cons x xs)
  show ?case
    by (simp only: sfoldM.simps) (intro pres_bind [OF assms] Cons.IH)
qed

lemma pres_forward_step_st:
  assumes "lim s0 \<le> ph"
  shows "pres s0 (forward_step_st H inputs pU pW pV pb pc ph t outputs) (\<lambda>x. True)"
  unfolding forward_step_st_def
  by (intro pres_bind [OF pres_read_arr] pres_bind [OF pres_read_arr3] pres_bind [OF pres_lift]
      pres_bind [OF pres_set_hidden_st] pres_bind [OF pres_new_arr] pres_return assms TrueI)

lemma pres_forward_st: "pres s0 (forward_st H inputs pU pW pV pb pc) (\<lambda>x. True)"
  unfolding forward_st_def Let_def
  by (intro pres_bind [OF pres_new_arr3] pres_bind [OF pres_set_hidden_st]
      pres_bind [OF pres_sfoldM] pres_forward_step_st pres_return TrueI)

lemma pres_backward_step_st:
  assumes "lim s0 \<le> dU" "lim s0 \<le> dW" "lim s0 \<le> dV" "lim s0 \<le> db" "lim s0 \<le> dc"
  shows "pres s0 (backward_step_st inputs outputs ph targets pU pW pV dU dW dV db dc t dh_next)
           (\<lambda>x. True)"
  unfolding backward_step_st_def
  by (intro pres_bind [OF pres_read_arr] pres_bind [OF pres_read_arr3] pres_bind [OF pres_lift]
      pres_bind [OF pres_set_row_st] pres_bind [OF pres_new_arr] pres_bind [OF pres_iadd_st]
      pres_lift assms)

lemma pres_backward_st:
  "pres s0 (backward_st inputs outputs ph targets pU pW pV pb pc) (\<lambda>x. True)"
  unfolding backward_st_def Let_def
  by (intro pres_bind [OF pres_read_arr] pres_bind [OF pres_read_arr3] pres_bind [OF pres_lift]
      pres_bind [OF pres_new_arr] pres_bind [OF pres_sfoldM] pres_backward_step_st pres_return TrueI)

lemma frame_params:
  assumes "frame s s'" "pU < lim s" "pW < lim s" "pV < lim s" "pb < lim s" "pc < lim s"
  shows "params_at s' pU pW pV pb pc = params_at s pU pW pV pb pc"
  using assms by (simp add: frame_def params_at_def)

text \<open>
  Claim C7.  Whatever the inputs, and whether the call returns or raises, the five
  parameter arrays hold after \<open>forward\<close> and after \<open>backward\<close> what they held before the
  call: both functions write only into arrays they have allocated themselves.
\<close>

theorem forward_backward_keep_parameters:
  assumes "pU < lim s" and "pW < lim s" and "pV < lim s" and "pb < lim s" and "pc < lim s"
  shows "params_at (snd (forward_st hidden_size inputs pU pW pV pb pc s)) pU pW pV pb pc
           = params_at s pU pW pV pb pc \<and>
         params_at (snd (backward_st inputs outputs ph targets pU pW pV pb pc s)) pU pW pV pb pc
           = params_at s pU pW pV pb pc"
proof -
  have "frame s (snd (forward_st hidden_size inputs pU pW pV pb pc s))"
    using pres_forward_st [of s hidden_size inputs pU pW pV pb pc] frame_refl [of s]
    by (simp add: pres_def)
  moreover have "frame s (snd (backward_st inputs outputs ph targets pU pW pV pb pc s))"
    using pres_backward_st [of s inputs outputs ph targets pU pW pV pb pc] frame_refl [of s]
    by (simp add: pres_def)
  ultimately show ?thesis
    using assms by (simp add: frame_params)
qed

theorem forward_backward_keep_parameters_witness:
  "(0::nat) < lim ex_store \<and> (1::nat) < lim ex_store \<and> (2::nat) < lim ex_store \<and>
   (3::nat) < lim ex_store \<and> (4::nat) < lim ex_store \<and>
   params_at (snd (forward_st 3 [5, 6] 0 1 2 3 4 ex_store)) 0 1 2 3 4
     = (ex_U, ex_W, ex_V, ex_b, ex_c) \<and>
   params_at (snd (backward_st [5, 6] [7, 8] 9 [0, 1] 0 1 2 3 4 ex_store)) 0 1 2 3 4
     = (ex_U, ex_W, ex_V, ex_b, ex_c)"
proof -
  have l: "(0::nat) < lim ex_store" "(1::nat) < lim ex_store" "(2::nat) < lim ex_store"
    "(3::nat) < lim ex_store" "(4::nat) < lim ex_store"
    by (simp_all add: ex_store_def)
  have p: "params_at ex_store 0 1 2 3 4 = (ex_U, ex_W, ex_V, ex_b, ex_c)"
    by (simp add: params_at_def ex_store_def)
  from forward_backward_keep_parameters [OF l, of 3 "[5, 6]" "[7, 8]" 9 "[0, 1]"] l p
  show ?thesis by simp
qed

section \<open>The store model refines the value model\<close>

lemma sbind_lift: "sbind (lift r) f s = (case r of Inl e \<Rightarrow> (Inl e, s) | Inr x \<Rightarrow> f x s)"
  by (simp add: sbind_def lift_def split: sum.splits)

lemma sbind_read_arr: "sbind (read_arr p) f s = f (arr s p) s"
  by (simp add: sbind_def read_arr_def)

lemma sbind_read_arr3: "sbind (read_arr3 p) f s = f (arr3 s p) s"
  by (simp add: sbind_def read_arr3_def)

lemma sbind_new_arr:
  "sbind (new_arr A) f s = f (lim s) (s\<lparr>arr := (arr s)(lim s := A), lim := lim s + 1\<rparr>)"
  by (simp add: sbind_def new_arr_def)

lemma sbind_new_arr3:
  "sbind (new_arr3 As) f s = f (lim s) (s\<lparr>arr3 := (arr3 s)(lim s := As), lim := lim s + 1\<rparr>)"
  by (simp add: sbind_def new_arr3_def)

lemma sbind_set_hidden_st:
  "sbind (set_hidden_st H ph i v) f s =
     (case set_hidden H (arr3 s ph) i v of Inl e \<Rightarrow> (Inl e, s)
      | Inr hs' \<Rightarrow> f () (s\<lparr>arr3 := (arr3 s)(ph := hs')\<rparr>))"
  by (simp add: set_hidden_st_def sbind_def read_arr3_def lift_def write_arr3_def split: sum.splits)

lemma forward_step_sim:
  assumes rel: "fwd_rel s0 ph (pouts, s) (outs, hs)"
    and par: "pU < lim s0" "pW < lim s0" "pV < lim s0" "pb < lim s0" "pc < lim s0"
    and inp: "\<forall>p \<in> set inputs. p < lim s0"
  shows "case forward_step H (map (arr s0) inputs) (arr s0 pU) (arr s0 pW) (arr s0 pV)
                (arr s0 pb) (arr s0 pc) t (outs, hs) of
           Inl e \<Rightarrow> fst (forward_step_st H inputs pU pW pV pb pc ph t pouts s) = Inl e
         | Inr a' \<Rightarrow> (\<exists>pouts'. fst (forward_step_st H inputs pU pW pV pb pc ph t pouts s) = Inr pouts' \<and>
              fwd_rel s0 ph (pouts', snd (forward_step_st H inputs pU pW pV pb pc ph t pouts s)) a')"
proof -
  from rel have fr: "frame s0 s" and ph: "lim s0 \<le> ph" "ph < lim s" and hs: "arr3 s ph = hs"
    and po: "map (arr s) pouts = outs" "\<forall>p \<in> set pouts. p < lim s"
    by (simp_all add: fwd_rel_def)
  from fr par have rd: "arr s pU = arr s0 pU" "arr s pW = arr s0 pW" "arr s pV = arr s0 pV"
    "arr s pb = arr s0 pb" "arr s pc = arr s0 pc"
    by (simp_all add: frame_def)
  show ?thesis
  proof (cases "t < length inputs")
    case False
    then show ?thesis
      by (simp add: forward_step_def forward_step_st_def item_def sbind_lift sbind_read_arr)
  next
    case True
    with inp fr have x: "arr s (inputs ! t) = arr s0 (inputs ! t)"
      by (simp add: frame_def)
    have keep: "map ((arr s)(lim s := A)) pouts = outs" for A
      using po by auto
    have fr': "frame s0 (s\<lparr>arr3 := (arr3 s)(ph := X)\<rparr>\<lparr>arr := (arr s)(lim s := A), lim := Suc (lim s)\<rparr>)" for X A
      using fr ph by (auto simp: frame_def)
    show ?thesis
      using True ph po(2)
      apply (simp add: forward_step_def forward_step_st_def item_def sbind_lift sbind_read_arr
          sbind_read_arr3 sbind_set_hidden_st sbind_new_arr rd x hs ebind_def sreturn_def
          split: sum.splits)
      apply (auto simp: fwd_rel_def keep fr' less_Suc_eq)
      done
  qed
qed

lemma foldM_sim:
  assumes step: "\<And>x c s a. x \<in> set xs \<Longrightarrow> R (c, s) a \<Longrightarrow>
        (case f x a of Inl e \<Rightarrow> fst (g x c s) = Inl e
         | Inr a' \<Rightarrow> (\<exists>c'. fst (g x c s) = Inr c' \<and> R (c', snd (g x c s)) a'))"
    and rel: "R (c, s) a"
  shows "case foldM f xs a of Inl e \<Rightarrow> fst (sfoldM g xs c s) = Inl e
         | Inr a' \<Rightarrow> (\<exists>c'. fst (sfoldM g xs c s) = Inr c' \<and> R (c', snd (sfoldM g xs c s)) a')"
  using assms
proof (induction xs arbitrary: c s a)
  case Nil
  then show ?case by (simp add: sreturn_def)
next
  case (Cons x xs)
  obtain r s1 where g: "g x c s = (r, s1)" by (cases "g x c s") auto
  show ?case
  proof (cases "f x a")
    case (Inl e)
    with Cons.prems(1) [of x c s a] Cons.prems(2) g show ?thesis
      by (simp add: sbind_def)
  next
    case (Inr a1)
    with Cons.prems(1) [of x c s a] Cons.prems(2) g obtain c1 where
      r: "r = Inr c1" and rel1: "R (c1, s1) a1"
      by auto
    have ih: "case foldM f xs a1 of Inl e \<Rightarrow> fst (sfoldM g xs c1 s1) = Inl e
         | Inr a' \<Rightarrow> (\<exists>c'. fst (sfoldM g xs c1 s1) = Inr c' \<and> R (c', snd (sfoldM g xs c1 s1)) a')"
      by (rule Cons.IH [OF _ rel1]) (use Cons.prems(1) in auto)
    have eq: "sfoldM g (x # xs) c s = sfoldM g xs c1 s1"
      using g r by (simp add: sbind_def)
    show ?thesis
      unfolding eq foldM.simps Inr ebind_Inr by (fact ih)
  qed
qed

text \<open>
  The two models of \<open>forward\<close> agree: on a store that holds the parameters and the inputs,
  the store model raises what the value model raises, and otherwise returns addresses at
  which the final store holds the outputs and the hidden trajectory of the value model.
\<close>

lemma forward_st_refines:
  assumes par: "pU < lim s" "pW < lim s" "pV < lim s" "pb < lim s" "pc < lim s"
    and inp: "\<forall>p \<in> set inputs. p < lim s"
  shows "case forward H (map (arr s) inputs) (arr s pU) (arr s pW) (arr s pV) (arr s pb) (arr s pc) of
           Inl e \<Rightarrow> fst (forward_st H inputs pU pW pV pb pc s) = Inl e
         | Inr (outs, hs) \<Rightarrow>
             (\<exists>pouts ph s'. forward_st H inputs pU pW pV pb pc s = (Inr (pouts, ph), s') \<and>
                map (arr s') pouts = outs \<and> arr3 s' ph = hs)"
proof -
  let ?T = "length inputs"
  let ?hs0 = "replicate (?T + 1) (np_zeros H 1)"
  let ?s1 = "s\<lparr>arr3 := (arr3 s)(lim s := ?hs0), lim := lim s + 1\<rparr>"
  let ?f = "forward_step H (map (arr s) inputs) (arr s pU) (arr s pW) (arr s pV) (arr s pb) (arr s pc)"
  let ?g = "forward_step_st H inputs pU pW pV pb pc (lim s)"
  have init: "set_hidden H ?hs0 0 (np_zeros H 1) = Inr ?hs0"
    using forward_init [of H ?T] by simp
  have s1: "?s1\<lparr>arr3 := (arr3 ?s1)(lim s := ?hs0)\<rparr> = ?s1"
    by simp
  have rel: "fwd_rel s (lim s) ([], ?s1) ([], ?hs0)"
    by (simp add: fwd_rel_def frame_def)
  have sim: "case foldM ?f [0..<?T] ([], ?hs0) of
           Inl e \<Rightarrow> fst (sfoldM ?g [0..<?T] [] ?s1) = Inl e
         | Inr a' \<Rightarrow> (\<exists>c'. fst (sfoldM ?g [0..<?T] [] ?s1) = Inr c' \<and>
              fwd_rel s (lim s) (c', snd (sfoldM ?g [0..<?T] [] ?s1)) a')"
  proof (rule foldM_sim [where R = "fwd_rel s (lim s)", OF _ rel])
    fix x c sa a
    assume "fwd_rel s (lim s) (c, sa) a"
    then show "case ?f x a of Inl e \<Rightarrow> fst (?g x c sa) = Inl e
         | Inr a' \<Rightarrow> (\<exists>c'. fst (?g x c sa) = Inr c' \<and> fwd_rel s (lim s) (c', snd (?g x c sa)) a')"
      using forward_step_sim [OF _ par inp, of "lim s" c sa "fst a" "snd a" H x] by simp
  qed
  have fst_: "forward_st H inputs pU pW pV pb pc s =
      (case sfoldM ?g [0..<?T] [] ?s1 of (Inl e, s') \<Rightarrow> (Inl e, s')
       | (Inr pouts, s') \<Rightarrow> (Inr (pouts, lim s), s'))"
  proof -
    have sw: "s\<lparr>lim := L, arr3 := X\<rparr> = s\<lparr>arr3 := X, lim := L\<rparr>" for L X
      by simp
    show ?thesis
      unfolding forward_st_def Let_def sbind_new_arr3 sbind_set_hidden_st
      using init
      by (simp add: sbind_def sreturn_def sw del: replicate.simps)
  qed
  have pure: "forward H (map (arr s) inputs) (arr s pU) (arr s pW) (arr s pV) (arr s pb) (arr s pc)
      = foldM ?f [0..<?T] ([], ?hs0)"
    using init by (simp add: forward_def Let_def del: replicate.simps)
  show ?thesis
    unfolding pure fst_ using sim
    by (cases "sfoldM ?g [0..<?T] [] ?s1")
       (auto simp: fwd_rel_def split: sum.splits)
qed

lemma sbind_iadd_st:
  "sbind (iadd_st p B) f s =
     (case np_iadd (arr s p) B of Inl e \<Rightarrow> (Inl e, s)
      | Inr R \<Rightarrow> f () (s\<lparr>arr := (arr s)(p := R)\<rparr>))"
  by (simp add: iadd_st_def sbind_def read_arr_def lift_def write_arr_def split: sum.splits)

lemma sbind_set_row_st:
  "sbind (set_row_st p k v) f s =
     (case set_row (arr s p) k v of Inl e \<Rightarrow> (Inl e, s)
      | Inr R \<Rightarrow> f () (s\<lparr>arr := (arr s)(p := R)\<rparr>))"
  by (simp add: set_row_st_def sbind_def read_arr_def lift_def write_arr_def split: sum.splits)

lemma ebind_eq_Inl: "ebind m f = Inl e \<longleftrightarrow> m = Inl e \<or> (\<exists>x. m = Inr x \<and> f x = Inl e)"
  by (cases m) simp_all

lemma lift_apply: "lift r s = (r, s)"
  by (simp add: lift_def)

lemma backward_step_sim:
  assumes rel: "bwd_rel s0 dU dW dV db dc (dh_next, s) (g, dh_next')"
    and par: "pU < lim s0" "pW < lim s0" "pV < lim s0"
    and inp: "\<forall>p \<in> set inputs. p < lim s0" and outp: "\<forall>p \<in> set outputs. p < lim s0"
    and ph: "ph < lim s0"
  shows "case backward_step (map (arr s0) inputs) (map (arr s0) outputs) (arr3 s0 ph) targets
                (arr s0 pU) (arr s0 pW) (arr s0 pV) b c t (g, dh_next') of
           Inl e \<Rightarrow> fst (backward_step_st inputs outputs ph targets pU pW pV dU dW dV db dc t dh_next s) = Inl e
         | Inr a' \<Rightarrow> (\<exists>d'. fst (backward_step_st inputs outputs ph targets pU pW pV dU dW dV db dc t dh_next s) = Inr d' \<and>
              bwd_rel s0 dU dW dV db dc
                (d', snd (backward_step_st inputs outputs ph targets pU pW pV dU dW dV db dc t dh_next s)) a')"
proof -
  from rel have fr: "frame s0 s" and g: "g = params_at s dU dW dV db dc" and dh: "dh_next' = dh_next"
    and di: "dU \<noteq> dW" "dU \<noteq> dV" "dU \<noteq> db" "dU \<noteq> dc" "dW \<noteq> dV" "dW \<noteq> db" "dW \<noteq> dc"
      "dV \<noteq> db" "dV \<noteq> dc" "db \<noteq> dc"
    and lo: "lim s0 \<le> dU" "lim s0 \<le> dW" "lim s0 \<le> dV" "lim s0 \<le> db" "lim s0 \<le> dc"
    and hi: "dU < lim s" "dW < lim s" "dV < lim s" "db < lim s" "dc < lim s"
    by (auto simp: bwd_rel_def)
  from fr par ph have rd: "arr s pU = arr s0 pU" "arr s pW = arr s0 pW" "arr s pV = arr s0 pV"
    "arr3 s ph = arr3 s0 ph"
    by (simp_all add: frame_def)
  have ne: "dU \<noteq> lim s" "dW \<noteq> lim s" "dV \<noteq> lim s" "db \<noteq> lim s" "dc \<noteq> lim s"
    "pU \<noteq> lim s" "pW \<noteq> lim s" "pV \<noteq> lim s"
    using hi par fr by (auto simp: frame_def)
  have pne: "pV \<noteq> dV" "pV \<noteq> dc" "pV \<noteq> db" "pV \<noteq> dU" "pV \<noteq> dW"
    "pW \<noteq> dV" "pW \<noteq> dc" "pW \<noteq> db" "pW \<noteq> dU" "pW \<noteq> dW"
    using par lo by auto
  have fr': "frame s0 (s\<lparr>arr := F, lim := Suc (lim s)\<rparr>)"
    if "\<And>p. p < lim s0 \<Longrightarrow> F p = arr s p" for F
    using fr that by (auto simp: frame_def)
  have ro: "arr s (outputs ! t) = arr s0 (outputs ! t)" if "t < length outputs"
    using that outp fr by (auto simp: frame_def dest!: nth_mem)
  have ri: "arr s (inputs ! t) = arr s0 (inputs ! t)" "inputs ! t \<noteq> lim s"
    "inputs ! t \<noteq> dU" "inputs ! t \<noteq> dW" "inputs ! t \<noteq> dV" "inputs ! t \<noteq> db" "inputs ! t \<noteq> dc"
    if "t < length inputs"
    using that inp fr lo by (auto simp: frame_def dest!: nth_mem)
  let ?pure = "backward_step (map (arr s0) inputs) (map (arr s0) outputs) (arr3 s0 ph) targets
                (arr s0 pU) (arr s0 pW) (arr s0 pV) b c t (g, dh_next')"
  let ?st = "backward_step_st inputs outputs ph targets pU pW pV dU dW dV db dc t dh_next s"
  have succ: "\<exists>d'. fst ?st = Inr d' \<and> bwd_rel s0 dU dW dV db dc (d', snd ?st) a'"
    if p: "?pure = Inr a'" for a'
  proof -
    from p [unfolded backward_step_def g params_at_def prod.case ebind_eq_Inr]
    show ?thesis
      apply (elim exE conjE)
      apply (simp add: backward_step_st_def item_def sbind_lift sbind_read_arr
          sbind_read_arr3 sbind_new_arr sbind_iadd_st sbind_set_row_st rd dh
          lift_apply ne ne [symmetric] pne pne [symmetric] di di [symmetric] ro ri split: if_splits)
      using fr lo hi di
      apply (auto simp: bwd_rel_def params_at_def frame_def)
      done
  qed
  have fail: "fst ?st = Inl e" if p: "?pure = Inl e" for e
  proof -
    from p [unfolded backward_step_def g params_at_def prod.case ebind_eq_Inl]
    show ?thesis
      apply (elim disjE exE conjE)
      apply (simp_all add: backward_step_st_def item_def sbind_lift sbind_read_arr
          sbind_read_arr3 sbind_new_arr sbind_iadd_st sbind_set_row_st rd dh
          lift_apply ne ne [symmetric] pne pne [symmetric] di di [symmetric] ro ri split: if_splits)
      done
  qed
  show ?thesis
    using succ fail by (cases ?pure) auto
qed

text \<open>The two models of \<open>backward\<close> agree in the same way.\<close>

lemma backward_st_refines:
  assumes par: "pU < lim s" "pW < lim s" "pV < lim s" "pb < lim s" "pc < lim s"
    and inp: "\<forall>p \<in> set inputs. p < lim s" and outp: "\<forall>p \<in> set outputs. p < lim s"
    and ph: "ph < lim s"
  shows "case backward (map (arr s) inputs) (map (arr s) outputs) (arr3 s ph) targets
                (arr s pU) (arr s pW) (arr s pV) (arr s pb) (arr s pc) of
           Inl e \<Rightarrow> fst (backward_st inputs outputs ph targets pU pW pV pb pc s) = Inl e
         | Inr g \<Rightarrow>
             (\<exists>dU dW dV db dc s'.
                backward_st inputs outputs ph targets pU pW pV pb pc s = (Inr (dU, dW, dV, db, dc), s') \<and>
                params_at s' dU dW dV db dc = g)"
proof -
  let ?L = "lim s"
  let ?T = "length inputs"
  let ?z = "np_zeros_like"
  let ?sa = "s\<lparr>arr := (arr s)(?L := ?z (arr s pU), Suc ?L := ?z (arr s pW), Suc (Suc ?L) := ?z (arr s pV),
                 Suc (Suc (Suc ?L)) := ?z (arr s pb), Suc (Suc (Suc (Suc ?L))) := ?z (arr s pc)), lim := Suc (Suc (Suc (Suc (Suc ?L))))\<rparr>"
  let ?f = "backward_step (map (arr s) inputs) (map (arr s) outputs) (arr3 s ph) targets
                (arr s pU) (arr s pW) (arr s pV) (arr s pb) (arr s pc)"
  let ?stp = "backward_step_st inputs outputs ph targets pU pW pV ?L (Suc ?L) (Suc (Suc ?L)) (Suc (Suc (Suc ?L))) (Suc (Suc (Suc (Suc ?L))))"
  let ?init = "(?z (arr s pU), ?z (arr s pW), ?z (arr s pV), ?z (arr s pb), ?z (arr s pc))"
  have st: "backward_st inputs outputs ph targets pU pW pV pb pc s =
      (case item (arr3 s ph) 0 of Inl e \<Rightarrow> (Inl e, ?sa)
       | Inr h0 \<Rightarrow> (case sfoldM ?stp (rev [0..<?T]) (?z h0) ?sa of
            (Inl e, s') \<Rightarrow> (Inl e, s')
          | (Inr d, s') \<Rightarrow> (Inr (?L, Suc ?L, Suc (Suc ?L), Suc (Suc (Suc ?L)), Suc (Suc (Suc (Suc ?L)))), s')))"
    unfolding backward_st_def Let_def sbind_new_arr sbind_read_arr sbind_read_arr3 sbind_lift
    using par
    by (simp add: sbind_def sreturn_def numeral_eq_Suc fun_upd_twist split: sum.splits)
  show ?thesis
  proof (cases "item (arr3 s ph) 0")
    case (Inl e)
    then show ?thesis
      by (simp add: st backward_def Let_def)
  next
    case (Inr h0)
    have rel: "bwd_rel s ?L (Suc ?L) (Suc (Suc ?L)) (Suc (Suc (Suc ?L))) (Suc (Suc (Suc (Suc ?L)))) (?z h0, ?sa) (?init, ?z h0)"
      by (simp add: bwd_rel_def frame_def params_at_def)
    have sim: "case foldM ?f (rev [0..<?T]) (?init, ?z h0) of
           Inl e \<Rightarrow> fst (sfoldM ?stp (rev [0..<?T]) (?z h0) ?sa) = Inl e
         | Inr a' \<Rightarrow> (\<exists>c'. fst (sfoldM ?stp (rev [0..<?T]) (?z h0) ?sa) = Inr c' \<and>
              bwd_rel s ?L (Suc ?L) (Suc (Suc ?L)) (Suc (Suc (Suc ?L))) (Suc (Suc (Suc (Suc ?L))))
                (c', snd (sfoldM ?stp (rev [0..<?T]) (?z h0) ?sa)) a')"
    proof (rule foldM_sim [where R = "bwd_rel s ?L (Suc ?L) (Suc (Suc ?L)) (Suc (Suc (Suc ?L))) (Suc (Suc (Suc (Suc ?L))))", OF _ rel])
      fix x d sa a
      assume r: "bwd_rel s ?L (Suc ?L) (Suc (Suc ?L)) (Suc (Suc (Suc ?L))) (Suc (Suc (Suc (Suc ?L)))) (d, sa) a"
      obtain g dh' where a: "a = (g, dh')" by (cases a)
      show "case ?f x a of Inl e \<Rightarrow> fst (?stp x d sa) = Inl e
         | Inr a' \<Rightarrow> (\<exists>c'. fst (?stp x d sa) = Inr c' \<and>
              bwd_rel s ?L (Suc ?L) (Suc (Suc ?L)) (Suc (Suc (Suc ?L))) (Suc (Suc (Suc (Suc ?L)))) (c', snd (?stp x d sa)) a')"
        unfolding a by (rule backward_step_sim [OF r [unfolded a] par(1-3) inp outp ph])
    qed
    have pure: "backward (map (arr s) inputs) (map (arr s) outputs) (arr3 s ph) targets
                (arr s pU) (arr s pW) (arr s pV) (arr s pb) (arr s pc) =
        (case foldM ?f (rev [0..<?T]) (?init, ?z h0) of Inl e \<Rightarrow> Inl e | Inr a \<Rightarrow> Inr (fst a))"
      using Inr by (simp add: backward_def Let_def ebind_def)
    show ?thesis
      unfolding pure st Inr using sim
      by (cases "sfoldM ?stp (rev [0..<?T]) (?z h0) ?sa")
         (auto simp: bwd_rel_def split: sum.splits)
  qed
qed


section \<open>Floating-point sums and the softmax\<close>


lemma prob_Fin [simp]: "prob (Fin r) \<longleftrightarrow> 0 \<le> r \<and> r \<le> 1"
  by (simp add: prob_def)





lemma fl_add_NaN_right [simp]: "fl_add M x NaN = NaN"
  by (cases x) simp_all



lemma fl_div_NaN_right [simp]: "fl_div M x NaN = NaN"
  by (cases x) simp_all

lemma fl_sub_NaN_right [simp]: "fl_sub M x NaN = NaN"
  by (simp add: fl_sub_def)






lemma softmax_list_length [simp]: "length (softmax_list M xs) = length xs"
  by (simp add: softmax_list_def Let_def)


section \<open>The generator\<close>





















section \<open>The forward pass on float64 values\<close>

lemma fshape0_fmk [simp]: "fshape0 (fmk r c f) = r"
  by (simp add: fshape0_def fmk_def)

lemma fshape1_fmk [simp]: "fshape1 (fmk r c f) = c"
  by (simp add: fmk_def)

lemma fwf_fmk [simp]: "fwf (fmk r c f)"
  by (simp add: fwf_def fmk_def list_all_iff)

lemma fentry_fmk [simp]: "i < r \<Longrightarrow> j < c \<Longrightarrow> fentry (fmk r c f) i j = f i j"
  by (simp add: fentry_def fmk_def)
















section \<open>The outputs of the forward pass on float64 values\<close>














section \<open>The range of the hidden states\<close>









end
